theory Spec2Isabelle
  imports Main "HOL-Library.Word"
begin

section \<open>The mesh cache of LibsimAnalysisAdaptor\<close>

text \<open>
  The development follows \<^verbatim>\<open>sensei/LibsimAnalysisAdaptor.cxx\<close>. Pointers to VTK
  objects are object identities (\<open>nat\<close>), a null pointer is \<open>None\<close>. VTK's reference
  counting (\<^verbatim>\<open>Register\<close>, \<^verbatim>\<open>Delete\<close>) is not modelled. C \<^verbatim>\<open>int\<close> values that index
  vectors or hold patch extents are \<open>int\<close>; sizes of vectors are assumed
  to fit a C \<^verbatim>\<open>int\<close>, as the casts \<^verbatim>\<open>static_cast<int>(v.size())\<close> of the source do.
  Global domain ids are \<^verbatim>\<open>unsigned int\<close> in the cache and \<^verbatim>\<open>int\<close> at the Libsim
  interface, so they are 32-bit words with the casts written out. The domain counts and
  their total are 32-bit \<^verbatim>\<open>int\<close> values: \<open>int32 x\<close> is what a C \<^verbatim>\<open>int\<close> holds after
  the value \<open>x\<close> was stored in it, with the wrap-around of two's complement.
\<close>

definition int32 :: "int \<Rightarrow> int" where
  "int32 x = sint (word_of_int x :: 32 word)"

type_synonym vtkDataSet = nat

text \<open>
  The part of \<^verbatim>\<open>vtkOverlappingAMR\<close> that the adaptor reads: the number of datasets of
  each level, the refinement ratio of each level, and per composite index the AMR box
  (\<open>None\<close> when \<^verbatim>\<open>box.Empty()\<close>, otherwise the six integers that
  \<^verbatim>\<open>GetDimensions(int[6])\<close> stores: low and high per axis) and the leaf dataset.
\<close>

type_synonym vtkAMRBox = "int \<times> int \<times> int \<times> int \<times> int \<times> int"

record vtkOverlappingAMR =
  NumberOfDataSets :: "nat list"
  RefinementRatio :: "int list"
  AMRBox :: "vtkAMRBox option list"
  AMRDataSet :: "vtkDataSet option list"

datatype vtkDataObject =
    DataSet vtkDataSet
  | CompositeDataSet "vtkDataSet option list"
  | OverlappingAMR vtkOverlappingAMR
  | OtherDataObject

record MeshInfo =
  dataObj :: "vtkDataObject option"
  datasets :: "vtkDataSet option list"
  ndoms_per_rank :: "int list"
  doms_this_rank :: "32 word list"
  datasetsHaveGhostCells :: bool

text \<open>The constructor \<^verbatim>\<open>MeshInfo()\<close>.\<close>

definition MeshInfo_new :: MeshInfo where
  "MeshInfo_new =
     \<lparr>dataObj = None, datasets = [], ndoms_per_rank = [], doms_this_rank = [],
      datasetsHaveGhostCells = False\<rparr>"

definition SetDataObject :: "vtkDataObject option \<Rightarrow> MeshInfo \<Rightarrow> MeshInfo" where
  "SetDataObject obj mi = mi\<lparr>dataObj := obj\<rparr>"

definition SetDataSet :: "int \<Rightarrow> vtkDataSet option \<Rightarrow> MeshInfo \<Rightarrow> MeshInfo" where
  "SetDataSet idx ds mi =
     (if idx \<ge> 0 \<and> idx < int (length (datasets mi))
      then mi\<lparr>datasets := (datasets mi)[nat idx := ds]\<rparr>
      else mi)"

record PrivateData =
  meshData :: "string \<rightharpoonup> MeshInfo"

definition ClearMeshDataCache :: "PrivateData \<Rightarrow> PrivateData" where
  "ClearMeshDataCache This = This\<lparr>meshData := Map.empty\<rparr>"

subsection \<open>Populating a cache entry\<close>

text \<open>
  \<^verbatim>\<open>MPI_Allgather\<close> of one value per process: every process receives the list of all
  contributions, in rank order. The argument lists the send buffers by rank, the result
  lists the receive buffers by rank.
\<close>

definition MPI_Allgather :: "'a list \<Rightarrow> 'a list list" where
  "MPI_Allgather sendbufs = map (\<lambda>_. sendbufs) sendbufs"

text \<open>
  \<^verbatim>\<open>AddMeshDataCacheEntry\<close> on one process. The new entry replaces an old one of the
  same name. \<open>recvbuf\<close> is what \<^verbatim>\<open>MPI_Allgather\<close> stored into \<^verbatim>\<open>ndoms_per_rank\<close>,
  which was resized to the communicator's size just before.
\<close>

definition AddMeshDataCacheEntry ::
  "int list \<Rightarrow> PrivateData \<Rightarrow> string \<Rightarrow> 32 word list \<Rightarrow> PrivateData"
where
  "AddMeshDataCacheEntry recvbuf This meshName datasetIds =
     (let mInfo = MeshInfo_new
        \<lparr>datasets := replicate (length datasetIds) None,
         doms_this_rank := datasetIds,
         ndoms_per_rank := recvbuf\<rparr>
      in This\<lparr>meshData := (meshData This)(meshName \<mapsto> mInfo)\<rparr>)"

text \<open>
  All processes of the communicator calling \<^verbatim>\<open>AddMeshDataCacheEntry\<close> together: process
  \<open>r\<close> has state \<open>Thiss ! r\<close> and passes \<open>datasetIdss ! r\<close>; each sends
  \<^verbatim>\<open>ndoms = static_cast<int>(datasetIds.size())\<close>.
\<close>

definition AddMeshDataCacheEntry_all ::
  "PrivateData list \<Rightarrow> string \<Rightarrow> 32 word list list \<Rightarrow> PrivateData list"
where
  "AddMeshDataCacheEntry_all Thiss meshName datasetIdss =
     (let ndoms = map (\<lambda>ids. int32 (int (length ids))) datasetIdss;
          recv = MPI_Allgather ndoms
      in map (\<lambda>r. AddMeshDataCacheEntry (recv ! r) (Thiss ! r) meshName (datasetIdss ! r))
           [0 ..< length datasetIdss])"

subsection \<open>Queries on the cache\<close>

text \<open>
  \<^verbatim>\<open>GetTotalDomains\<close>: the loop \<^verbatim>\<open>for(i = 0; i < size; ++i) total += ndoms_per_rank[i]\<close>,
  with \<open>nranks\<close> the communicator's size (\<^verbatim>\<open>size\<close> in the source) and \<open>tot\<close> the
  running \<^verbatim>\<open>total\<close>, a C \<^verbatim>\<open>int\<close>. Reading past the end of the vector is \<open>None\<close>.
\<close>

fun GetTotalDomains_loop :: "int list \<Rightarrow> nat \<Rightarrow> nat \<Rightarrow> int \<Rightarrow> int option" where
  "GetTotalDomains_loop v i 0 tot = Some tot"
| "GetTotalDomains_loop v i (Suc n) tot =
     (if i < length v then GetTotalDomains_loop v (Suc i) n (int32 (tot + v ! i)) else None)"

definition GetTotalDomains :: "nat \<Rightarrow> PrivateData \<Rightarrow> string \<Rightarrow> int option" where
  "GetTotalDomains nranks This meshName =
     (case meshData This meshName of
        None \<Rightarrow> Some 0
      | Some mi \<Rightarrow> GetTotalDomains_loop (ndoms_per_rank mi) 0 nranks 0)"

text \<open>
  \<^verbatim>\<open>GetDomains\<close>: this rank's global domain ids, each cast to \<^verbatim>\<open>int\<close>; the returned
  size is the length of the list.
\<close>

definition GetDomains :: "PrivateData \<Rightarrow> string \<Rightarrow> int list" where
  "GetDomains This meshName =
     (case meshData This meshName of
        None \<Rightarrow> []
      | Some mi \<Rightarrow> map sint (doms_this_rank mi))"

text \<open>
  \<^verbatim>\<open>GetLocalDomain\<close>: the linear search with \<^verbatim>\<open>break\<close> at the first match; the third
  argument of the loop is the index \<^verbatim>\<open>i\<close>.
\<close>

fun GetLocalDomain_loop :: "32 word \<Rightarrow> 32 word list \<Rightarrow> int \<Rightarrow> int" where
  "GetLocalDomain_loop gdom [] i = -1"
| "GetLocalDomain_loop gdom (d # ds) i =
     (if gdom = d then i else GetLocalDomain_loop gdom ds (i + 1))"

definition GetLocalDomain :: "PrivateData \<Rightarrow> string \<Rightarrow> int \<Rightarrow> int" where
  "GetLocalDomain This meshName globaldomain =
     (case meshData This meshName of
        None \<Rightarrow> -1
      | Some mi \<Rightarrow>
          GetLocalDomain_loop (word_of_int globaldomain) (doms_this_rank mi) 0)"

definition GetNumDataSets :: "PrivateData \<Rightarrow> string \<Rightarrow> int" where
  "GetNumDataSets This meshName =
     (case meshData This meshName of
        None \<Rightarrow> 0
      | Some mi \<Rightarrow> int (length (doms_this_rank mi)))"

definition GetDataSet :: "PrivateData \<Rightarrow> string \<Rightarrow> int \<Rightarrow> vtkDataSet option" where
  "GetDataSet This meshName localdomain =
     (case meshData This meshName of
        None \<Rightarrow> None
      | Some mi \<Rightarrow>
          (if localdomain \<ge> 0 \<and> localdomain < int (length (datasets mi))
           then datasets mi ! nat localdomain
           else None))"


subsection \<open>Fetching the mesh\<close>

text \<open>
  The data adaptor's \<^verbatim>\<open>GetMesh(meshName, structureOnly, obj)\<close> is a parameter
  \<open>da_GetMesh\<close>: it gives the return code (non-zero on failure) and the object it stored
  in \<^verbatim>\<open>obj\<close>. The composite iterator skips empty nodes; \<open>localId\<close> counts the
  datasets stored so far.
\<close>

type_synonym DataAdaptor_GetMesh = "string \<Rightarrow> bool \<Rightarrow> int \<times> vtkDataObject option"

fun FetchMesh_unpack :: "vtkDataSet option list \<Rightarrow> int \<Rightarrow> MeshInfo \<Rightarrow> MeshInfo" where
  "FetchMesh_unpack [] localId mi = mi"
| "FetchMesh_unpack (None # leaves) localId mi = FetchMesh_unpack leaves localId mi"
| "FetchMesh_unpack (Some ds # leaves) localId mi =
     FetchMesh_unpack leaves (localId + 1) (SetDataSet localId (Some ds) mi)"

definition FetchMesh :: "DataAdaptor_GetMesh \<Rightarrow> PrivateData \<Rightarrow> string \<Rightarrow> PrivateData" where
  "FetchMesh da_GetMesh This meshName =
     (case meshData This meshName of
        None \<Rightarrow> This
      | Some mi \<Rightarrow>
          (case da_GetMesh meshName False of
             (rc, obj) \<Rightarrow>
               if rc \<noteq> 0 then This
               else
                 let mi1 = SetDataObject obj mi;
                     mi2 = (case obj of
                              Some (CompositeDataSet leaves) \<Rightarrow> FetchMesh_unpack leaves 0 mi1
                            | Some (OverlappingAMR amr) \<Rightarrow>
                                FetchMesh_unpack (AMRDataSet amr) 0 mi1
                            | Some (DataSet ds) \<Rightarrow> SetDataSet 0 (Some ds) mi1
                            | _ \<Rightarrow> mi1)
                 in This\<lparr>meshData := (meshData This)(meshName \<mapsto> mi2)\<rparr>))"

subsection \<open>The states of the cache\<close>

text \<open>
  The cache is empty at first and changes in four places of the source:
  \<^verbatim>\<open>AddMeshDataCacheEntry\<close>, the assignment to \<^verbatim>\<open>datasetsHaveGhostCells\<close> in
  \<^verbatim>\<open>GetMetaData\<close>, \<^verbatim>\<open>FetchMesh\<close> and \<^verbatim>\<open>ClearMeshDataCache\<close>.
\<close>

inductive cache_state :: "PrivateData \<Rightarrow> bool" where
  cache_empty: "cache_state \<lparr>meshData = Map.empty\<rparr>"
| cache_add:
    "cache_state This \<Longrightarrow> cache_state (AddMeshDataCacheEntry recvbuf This meshName datasetIds)"
| cache_ghost:
    "cache_state This \<Longrightarrow> meshData This meshName = Some mi \<Longrightarrow>
     cache_state (This\<lparr>meshData := (meshData This)(meshName \<mapsto> mi\<lparr>datasetsHaveGhostCells := b\<rparr>)\<rparr>)"
| cache_fetch:
    "cache_state This \<Longrightarrow> cache_state (FetchMesh da_GetMesh This meshName)"
| cache_clear:
    "cache_state This \<Longrightarrow> cache_state (ClearMeshDataCache This)"

section \<open>AMR domain nesting\<close>

subsection \<open>The overlapping AMR dataset\<close>

definition GetNumberOfLevels :: "vtkOverlappingAMR \<Rightarrow> nat" where
  "GetNumberOfLevels amr = length (NumberOfDataSets amr)"

definition GetNumberOfDataSets :: "vtkOverlappingAMR \<Rightarrow> nat \<Rightarrow> nat" where
  "GetNumberOfDataSets amr lev =
     (if lev < length (NumberOfDataSets amr) then NumberOfDataSets amr ! lev else 0)"

definition GetTotalNumberOfBlocks :: "vtkOverlappingAMR \<Rightarrow> nat" where
  "GetTotalNumberOfBlocks amr = sum_list (NumberOfDataSets amr)"

definition GetCompositeIndex :: "vtkOverlappingAMR \<Rightarrow> nat \<Rightarrow> nat \<Rightarrow> nat" where
  "GetCompositeIndex amr lev idx = sum_list (take lev (NumberOfDataSets amr)) + idx"

fun ComputeIndexPair :: "nat list \<Rightarrow> nat \<Rightarrow> nat \<Rightarrow> nat \<times> nat" where
  "ComputeIndexPair [] lev idx = (lev, idx)"
| "ComputeIndexPair (n # ns) lev idx =
     (if idx < n then (lev, idx) else ComputeIndexPair ns (lev + 1) (idx - n))"

definition GetLevelAndIndex :: "vtkOverlappingAMR \<Rightarrow> nat \<Rightarrow> nat \<times> nat" where
  "GetLevelAndIndex amr compositeIdx = ComputeIndexPair (NumberOfDataSets amr) 0 compositeIdx"

definition GetRefinementRatio :: "vtkOverlappingAMR \<Rightarrow> nat \<Rightarrow> int" where
  "GetRefinementRatio amr lev =
     (if lev < length (RefinementRatio amr) then RefinementRatio amr ! lev else 0)"

text \<open>\<^verbatim>\<open>GetAMRBox(level, id)\<close>; a box that the dataset does not hold is empty.\<close>

definition GetAMRBox :: "vtkOverlappingAMR \<Rightarrow> nat \<Rightarrow> nat \<Rightarrow> vtkAMRBox option" where
  "GetAMRBox amr lev idx =
     (let i = GetCompositeIndex amr lev idx
      in if i < length (AMRBox amr) then AMRBox amr ! i else None)"

subsection \<open>The extent table\<close>

text \<open>
  \<^verbatim>\<open>box.GetDimensions(&allext[6*i])\<close> stores six integers from position \<open>6 * i\<close> on.
\<close>

fun dims :: "vtkAMRBox \<Rightarrow> int list" where
  "dims (lo0, hi0, lo1, hi1, lo2, hi2) = [lo0, hi0, lo1, hi1, lo2, hi2]"

definition GetDimensions :: "int list \<Rightarrow> nat \<Rightarrow> vtkAMRBox \<Rightarrow> int list" where
  "GetDimensions allext i box =
     take (6 * i) allext @ dims box @ drop (6 * i + 6) allext"

text \<open>
  The table of one process before the reduction: every entry \<open>- 1\<close>, then the
  dimensions of each box that is not empty. \<open>local_box amr i\<close> is the box that the
  process finds for the composite index \<open>i\<close>.
\<close>

definition local_box :: "vtkOverlappingAMR \<Rightarrow> nat \<Rightarrow> vtkAMRBox option" where
  "local_box amr i =
     (case GetLevelAndIndex amr i of (mylevel, mypatch) \<Rightarrow> GetAMRBox amr mylevel mypatch)"

definition allext_patch :: "vtkOverlappingAMR \<Rightarrow> int list \<Rightarrow> nat \<Rightarrow> int list" where
  "allext_patch amr allext i =
     (case local_box amr i of
        None \<Rightarrow> allext
      | Some box \<Rightarrow> GetDimensions allext i box)"

definition allext_local :: "vtkOverlappingAMR \<Rightarrow> int list" where
  "allext_local amr =
     (let sz = 6 * GetTotalNumberOfBlocks amr
      in foldl (allext_patch amr) (replicate sz (- 1)) [0 ..< GetTotalNumberOfBlocks amr])"

text \<open>
  \<^verbatim>\<open>MPI_Allreduce\<close> with \<^verbatim>\<open>MPI_MAX\<close>: the element-wise maximum of the buffers of all
  processes, which every process receives.
\<close>

fun max_reduce :: "int list list \<Rightarrow> int list" where
  "max_reduce [] = []"
| "max_reduce [buf] = buf"
| "max_reduce (buf # bufs) = map2 max buf (max_reduce bufs)"

subsection \<open>Topological dimension, work list and its partition\<close>

definition topdim :: "int list \<Rightarrow> int" where
  "topdim allext = (if allext ! 5 - allext ! 4 > 1 then 3 else 2)"

text \<open>
  The work list: the composite indices of the patches of all levels but the last. For a
  dataset without levels \<^verbatim>\<open>GetNumberOfLevels()-1\<close> wraps around in the source; such a
  dataset has no blocks, and the read of \<^verbatim>\<open>allext[5]\<close> for the topological dimension,
  which comes first, is already outside the table.
\<close>

definition work :: "vtkOverlappingAMR \<Rightarrow> nat list" where
  "work amr =
     concat (map (\<lambda>lev. map (\<lambda>i. GetCompositeIndex amr lev i)
                           [0 ..< GetNumberOfDataSets amr lev])
               [0 ..< GetNumberOfLevels amr - 1])"

text \<open>The loop \<^verbatim>\<open>for(i = 0; i < ws; ++i) rankn[i % size]++\<close> on a zeroed array.\<close>

definition rankn :: "nat \<Rightarrow> nat \<Rightarrow> int list" where
  "rankn ws nranks =
     foldl (\<lambda>rn i. rn[i mod nranks := rn ! (i mod nranks) + 1]) (replicate nranks 0) [0 ..< ws]"

definition mywork_offset :: "int list \<Rightarrow> nat \<Rightarrow> int" where
  "mywork_offset rn rank = foldl (\<lambda>offset i. offset + rn ! i) 0 [0 ..< rank]"

definition mywork :: "nat list \<Rightarrow> nat \<Rightarrow> nat \<Rightarrow> nat list" where
  "mywork wk rank nranks =
     (let rn = rankn (length wk) nranks;
          offset = mywork_offset rn rank
      in map (\<lambda>i. wk ! (nat offset + i)) [0 ..< nat (rn ! rank)])"

subsection \<open>Parent and child patches\<close>

definition in_range :: "int \<Rightarrow> int \<Rightarrow> int \<Rightarrow> bool" where
  "in_range v v0 v1 \<longleftrightarrow> v \<ge> v0 \<and> v \<le> v1"

text \<open>\<open>ext\<close> and \<open>extChild\<close> point into the table; \<open>e k\<close> is \<^verbatim>\<open>ext[k]\<close>.\<close>

definition box_intersect :: "(nat \<Rightarrow> int) \<Rightarrow> (nat \<Rightarrow> int) \<Rightarrow> int \<Rightarrow> bool" where
  "box_intersect ext extChild ratio =
     (let parent = (\<lambda>k. ext k * ratio);
          inX = (in_range (extChild 0) (parent 0) (parent 1) \<or>
                 in_range (extChild 1) (parent 0) (parent 1));
          inY = (in_range (extChild 2) (parent 2) (parent 3) \<or>
                 in_range (extChild 3) (parent 2) (parent 3));
          inZ = (if parent 4 \<noteq> parent 5 \<or> parent 4 \<noteq> 0
                 then in_range (extChild 4) (parent 4) (parent 5) \<or>
                      in_range (extChild 5) (parent 4) (parent 5)
                 else True)
      in inX \<and> inY \<and> inZ)"

definition ext_at :: "int list \<Rightarrow> nat \<Rightarrow> nat \<Rightarrow> int" where
  "ext_at allext domain k = allext ! (6 * domain + k)"

text \<open>
  One round of the loop over \<^verbatim>\<open>mywork\<close>: the entries
  \<^verbatim>\<open>{compositeIndex nChildren c0 c1 ...}\<close> appended to \<^verbatim>\<open>childData\<close> for patch \<open>domain\<close> (\<^verbatim>\<open>dom\<close> in the source).
\<close>

definition childData_patch :: "vtkOverlappingAMR \<Rightarrow> int list \<Rightarrow> nat \<Rightarrow> int list" where
  "childData_patch amr allext domain =
     (case GetLevelAndIndex amr domain of
        (lev, patch) \<Rightarrow>
          let nextLevel = lev + 1;
              ratio = GetRefinementRatio amr lev;
              nDataSetsNextLevel = GetNumberOfDataSets amr nextLevel;
              children =
                filter (\<lambda>childDom.
                          box_intersect (ext_at allext domain) (ext_at allext childDom) ratio)
                  (map (GetCompositeIndex amr nextLevel) [0 ..< nDataSetsNextLevel])
          in int domain # int (length children) # map int children)"

definition childData :: "vtkOverlappingAMR \<Rightarrow> int list \<Rightarrow> nat list \<Rightarrow> int list" where
  "childData amr allext mw = concat (map (childData_patch amr allext) mw)"


subsection \<open>The domain nesting object\<close>

text \<open>
  The Libsim object is the record of the calls that filled it: its dimensions
  (patches, levels, topological dimension), the refinement ratios per level, and a
  list of \<^verbatim>\<open>set_nestingForPatch\<close> calls (patch, level, children, logical extent) in
  call order. \<open>nChildren\<close> children are read from the array \<open>children\<close>.
\<close>

record DomainNesting =
  dimensions :: "int \<times> int \<times> int"
  levelRefinement :: "(nat \<times> int list) list"
  nestingForPatch :: "(nat \<times> nat \<times> int list \<times> int list) list"

definition VisIt_DomainNesting_alloc :: DomainNesting where
  "VisIt_DomainNesting_alloc =
     \<lparr>dimensions = (0, 0, 0), levelRefinement = [], nestingForPatch = []\<rparr>"

definition VisIt_DomainNesting_set_dimensions ::
  "DomainNesting \<Rightarrow> int \<Rightarrow> int \<Rightarrow> int \<Rightarrow> DomainNesting"
where
  "VisIt_DomainNesting_set_dimensions h nPatches nLevels dimension =
     h\<lparr>dimensions := (nPatches, nLevels, dimension)\<rparr>"

definition VisIt_DomainNesting_set_levelRefinement ::
  "DomainNesting \<Rightarrow> nat \<Rightarrow> int list \<Rightarrow> DomainNesting"
where
  "VisIt_DomainNesting_set_levelRefinement h lev ratios =
     h\<lparr>levelRefinement := levelRefinement h @ [(lev, ratios)]\<rparr>"

definition VisIt_DomainNesting_set_nestingForPatch ::
  "DomainNesting \<Rightarrow> nat \<Rightarrow> nat \<Rightarrow> int list \<Rightarrow> int \<Rightarrow> int list \<Rightarrow> DomainNesting"
where
  "VisIt_DomainNesting_set_nestingForPatch h patch lev children nChildren logicalExt =
     h\<lparr>nestingForPatch :=
          nestingForPatch h @ [(patch, lev, take (nat nChildren) children, logicalExt)]\<rparr>"

text \<open>The children that the object holds for a patch: those of the last call for it.\<close>

fun children_of :: "(nat \<times> nat \<times> int list \<times> int list) list \<Rightarrow> nat \<Rightarrow> int list option" where
  "children_of [] patch = None"
| "children_of ((p, lev, children, logicalExt) # calls) patch =
     (case children_of calls patch of
        Some c \<Rightarrow> Some c
      | None \<Rightarrow> if p = patch then Some children else None)"

definition logicalExt :: "int list \<Rightarrow> nat \<Rightarrow> int list" where
  "logicalExt allext domain =
     [ext_at allext domain 0, ext_at allext domain 2, ext_at allext domain 4,
      ext_at allext domain 1, ext_at allext domain 3, ext_at allext domain 5]"

definition set_levelRefinements ::
  "vtkOverlappingAMR \<Rightarrow> int \<Rightarrow> DomainNesting \<Rightarrow> DomainNesting"
where
  "set_levelRefinements amr td h =
     foldl (\<lambda>h i.
              let r = GetRefinementRatio amr i
              in VisIt_DomainNesting_set_levelRefinement h i
                   [r, r, if td > 2 then r else 1])
       h [0 ..< GetNumberOfLevels amr]"

text \<open>
  The loop \<^verbatim>\<open>while(w < end)\<close> over the gathered results. \<open>None\<close> stands for a read
  past the end of \<^verbatim>\<open>workresults\<close> and for a negative child count, which
  \<open>childData\<close> never produces.
\<close>

function nestingForWork ::
  "vtkOverlappingAMR \<Rightarrow> int list \<Rightarrow> int list \<Rightarrow> DomainNesting \<Rightarrow> DomainNesting option"
where
  "nestingForWork amr allext [] h = Some h"
| "nestingForWork amr allext [w0] h = None"
| "nestingForWork amr allext (w0 # nChildren # w) h =
     (if nChildren < 0 \<or> nat nChildren > length w then None
      else
        let domain = nat w0;
            lev = fst (GetLevelAndIndex amr domain)
        in nestingForWork amr allext (drop (nat nChildren) w)
             (VisIt_DomainNesting_set_nestingForPatch h domain lev w nChildren
                (logicalExt allext domain)))"
  by pat_completeness auto
termination
  by (relation "measure (\<lambda>(amr, allext, w, h). length w)") auto

text \<open>The patches of the finest level, each with no children.\<close>

definition nestingForLeaves ::
  "vtkOverlappingAMR \<Rightarrow> int list \<Rightarrow> DomainNesting \<Rightarrow> DomainNesting"
where
  "nestingForLeaves amr allext h =
     (let lev = GetNumberOfLevels amr - 1
      in foldl (\<lambda>h i.
                  let domain = GetCompositeIndex amr lev i
                  in VisIt_DomainNesting_set_nestingForPatch h domain lev [0, 0] 0
                       (logicalExt allext domain))
           h [0 ..< GetNumberOfDataSets amr lev])"

subsection \<open>One process of the collective computation\<close>

text \<open>
  What one process does is a tree: it returns, or it enters a collective call with its
  contribution and continues with what the call delivers.
  \<open>MPI_Allreduce_MAX buf k\<close> is \<^verbatim>\<open>MPI_Allreduce(MPI_IN_PLACE, buf, ..., MPI_MAX, comm)\<close>;
  \<open>MPI_Allgatherv sendbuf recvcounts k\<close> is \<^verbatim>\<open>MPI_Allgatherv\<close> with the first
  \<^verbatim>\<open>sendcount\<close> entries of the send buffer and with displacements that are the running
  sums of \<open>recvcounts\<close> (the source computes \<^verbatim>\<open>displs\<close> so), hence a receive
  buffer that is the contributions one after the other.
\<close>

datatype 'a mpi =
    Return 'a
  | MPI_Allreduce_MAX "int list" "int list \<Rightarrow> 'a mpi"
  | MPI_Allgatherv "int list" "int list" "int list \<Rightarrow> 'a mpi"

datatype visit_handle = VISIT_INVALID_HANDLE | VISIT_HANDLE DomainNesting | OutOfBounds

text \<open>
  \<^verbatim>\<open>GetDomainNesting\<close> from the allocation of the nesting object on, for the AMR dataset
  \<open>amr\<close>, in three parts: up to the reduction of the extent table
  (\<open>GetDomainNesting_amr\<close>), from the reduced table \<open>allext\<close> to the gathering of the
  children (\<open>nesting_children\<close>), and from the gathered \<open>workresults\<close> to the end
  (\<open>nesting_result\<close>). \<open>OutOfBounds\<close> is the read of \<^verbatim>\<open>allext[4]\<close> and
  \<^verbatim>\<open>allext[5]\<close> in a table of fewer than six entries (a dataset without blocks), and
  a fault of \<open>nestingForWork\<close>.
\<close>

definition nesting_result ::
  "vtkOverlappingAMR \<Rightarrow> int list \<Rightarrow> DomainNesting \<Rightarrow> int list \<Rightarrow> visit_handle mpi"
where
  "nesting_result amr allext h workresults =
     (case nestingForWork amr allext workresults h of
        None \<Rightarrow> Return OutOfBounds
      | Some h3 \<Rightarrow> Return (VISIT_HANDLE (nestingForLeaves amr allext h3)))"

definition nesting_children ::
  "nat \<Rightarrow> nat \<Rightarrow> vtkOverlappingAMR \<Rightarrow> int list \<Rightarrow> visit_handle mpi"
where
  "nesting_children rank nranks amr allext =
     (if length allext < 6 then Return OutOfBounds
      else
        let td = topdim allext;
            h1 = VisIt_DomainNesting_set_dimensions VisIt_DomainNesting_alloc
                   (int (GetTotalNumberOfBlocks amr)) (int (GetNumberOfLevels amr)) td;
            h2 = set_levelRefinements amr td h1;
            mw = mywork (work amr) rank nranks;
            cd = childData amr allext mw;
            worksize = (replicate nranks 0)[rank := int (length cd)]
        in MPI_Allreduce_MAX worksize (\<lambda>worksize.
             MPI_Allgatherv (take (nat (worksize ! rank)) (cd @ [0])) worksize
               (nesting_result amr allext h2)))"

definition GetDomainNesting_amr ::
  "nat \<Rightarrow> nat \<Rightarrow> vtkOverlappingAMR \<Rightarrow> visit_handle mpi"
where
  "GetDomainNesting_amr rank nranks amr =
     MPI_Allreduce_MAX (allext_local amr) (nesting_children rank nranks amr)"

text \<open>
  \<^verbatim>\<open>GetDomainNesting\<close> on the process \<open>rank\<close> of \<open>nranks\<close>: the new state of the
  cache and the handle. \<open>alloc_ok\<close> says whether \<^verbatim>\<open>VisIt_DomainNesting_alloc\<close>
  succeeds. After \<^verbatim>\<open>FetchMesh\<close> the source looks the entry up again and dereferences
  the iterator.
\<close>

definition map_mpi_state :: "PrivateData \<Rightarrow> visit_handle mpi \<Rightarrow> (PrivateData \<times> visit_handle) mpi"
where
  "map_mpi_state This m = map_mpi (\<lambda>h. (This, h)) m"

definition GetDomainNesting ::
  "nat \<Rightarrow> nat \<Rightarrow> DataAdaptor_GetMesh \<Rightarrow> bool \<Rightarrow> PrivateData \<Rightarrow> string
     \<Rightarrow> (PrivateData \<times> visit_handle) mpi"
where
  "GetDomainNesting rank nranks da_GetMesh alloc_ok This name =
     (case meshData This name of
        None \<Rightarrow> Return (This, VISIT_INVALID_HANDLE)
      | Some mi \<Rightarrow>
          if datasetsHaveGhostCells mi then Return (This, VISIT_INVALID_HANDLE)
          else
            let This1 = (if dataObj mi = None then FetchMesh da_GetMesh This name else This)
            in (case meshData This1 name of
                  None \<Rightarrow> Return (This1, OutOfBounds)
                | Some mi1 \<Rightarrow>
                    (case dataObj mi1 of
                       Some (OverlappingAMR amr) \<Rightarrow>
                         if \<not> alloc_ok then Return (This1, VISIT_INVALID_HANDLE)
                         else map_mpi_state This1 (GetDomainNesting_amr rank nranks amr)
                     | _ \<Rightarrow> Return (This1, VISIT_INVALID_HANDLE))))"

subsection \<open>All processes together\<close>

text \<open>
  The processes run in lockstep. When all have returned the run is over; when all are in
  the same collective call, each continues with what it receives; processes in
  different calls wait for each other for ever, which is \<open>None\<close>.
\<close>

fun is_Return :: "'a mpi \<Rightarrow> bool" where
  "is_Return (Return a) = True"
| "is_Return _ = False"

fun is_Allreduce :: "'a mpi \<Rightarrow> bool" where
  "is_Allreduce (MPI_Allreduce_MAX buf k) = True"
| "is_Allreduce _ = False"

fun is_Allgatherv :: "'a mpi \<Rightarrow> bool" where
  "is_Allgatherv (MPI_Allgatherv sendbuf recvcounts k) = True"
| "is_Allgatherv _ = False"

fun returned :: "'a mpi \<Rightarrow> 'a list" where
  "returned (Return a) = [a]"
| "returned _ = []"

fun sendbuf_of :: "'a mpi \<Rightarrow> int list" where
  "sendbuf_of (Return a) = []"
| "sendbuf_of (MPI_Allreduce_MAX buf k) = buf"
| "sendbuf_of (MPI_Allgatherv sendbuf recvcounts k) = sendbuf"

definition gatherv :: "int list \<Rightarrow> int list list \<Rightarrow> int list" where
  "gatherv recvcounts sendbufs = concat (map2 (\<lambda>c b. take (nat c) b) recvcounts sendbufs)"

fun continue_with :: "int list list \<Rightarrow> 'a mpi \<Rightarrow> 'a mpi" where
  "continue_with sendbufs (Return a) = Return a"
| "continue_with sendbufs (MPI_Allreduce_MAX buf k) = k (max_reduce sendbufs)"
| "continue_with sendbufs (MPI_Allgatherv sendbuf recvcounts k) = k (gatherv recvcounts sendbufs)"

primrec run_spmd :: "'a mpi \<Rightarrow> 'a mpi list \<Rightarrow> 'a list option" where
  "run_spmd (Return a) ps =
     (if list_all is_Return ps then Some (a # concat (map returned ps)) else None)"
| "run_spmd (MPI_Allreduce_MAX buf k) ps =
     (if list_all is_Allreduce ps
      then run_spmd (k (max_reduce (buf # map sendbuf_of ps)))
             (map (continue_with (buf # map sendbuf_of ps)) ps)
      else None)"
| "run_spmd (MPI_Allgatherv sendbuf recvcounts k) ps =
     (if list_all is_Allgatherv ps
      then run_spmd (k (gatherv recvcounts (sendbuf # map sendbuf_of ps)))
             (map (continue_with (sendbuf # map sendbuf_of ps)) ps)
      else None)"

text \<open>The processes \<open>0, ..., nranks - 1\<close> of a communicator, each with its own state.\<close>

definition GetDomainNesting_all ::
  "DataAdaptor_GetMesh list \<Rightarrow> bool \<Rightarrow> PrivateData list \<Rightarrow> string
     \<Rightarrow> (PrivateData \<times> visit_handle) list option"
where
  "GetDomainNesting_all das alloc_ok Thiss name =
     (case map (\<lambda>r. GetDomainNesting r (length Thiss) (das ! r) alloc_ok (Thiss ! r) name)
             [0 ..< length Thiss] of
        [] \<Rightarrow> Some []
      | p # ps \<Rightarrow> run_spmd p ps)"


section \<open>Variable names\<close>

text \<open>
  \<^verbatim>\<open>GetArrayInfoFromVariableName\<close> has three reference parameters, which it may leave
  as they are. The record holds them (\<^verbatim>\<open>meshName\<close>, \<^verbatim>\<open>var\<close> and
  \<^verbatim>\<open>association\<close>); an association of \<open>None\<close> is an \<^verbatim>\<open>int\<close> that was never
  assigned. The data adaptor's \<^verbatim>\<open>GetMeshNames\<close> and
  \<^verbatim>\<open>GetArrayNames\<close> are the parameters \<open>meshNames\<close> and \<open>da_GetArrayNames\<close>.
  The result \<open>None\<close> is the read of \<^verbatim>\<open>meshNames[0]\<close> in an empty vector.
\<close>

record ArrayInfo =
  info_meshName :: string
  info_var :: string
  info_association :: "int option"

definition FIELD_ASSOCIATION_POINTS :: int where
  "FIELD_ASSOCIATION_POINTS = 0"

definition FIELD_ASSOCIATION_CELLS :: int where
  "FIELD_ASSOCIATION_CELLS = 1"

text \<open>\<^verbatim>\<open>std::string::find\<close> of one character: the first position, or \<^verbatim>\<open>npos\<close>.\<close>

fun string_find :: "string \<Rightarrow> char \<Rightarrow> nat option" where
  "string_find [] c = None"
| "string_find (x # xs) c =
     (if x = c then Some 0 else map_option Suc (string_find xs c))"

text \<open>
  The first half of the function: the names, and the flag \<^verbatim>\<open>findAssociation\<close>.
  \<open>cell_name v info\<close> is the test for the prefix \<^verbatim>\<open>cell_\<close> that both branches make.
\<close>

definition cell_name :: "string \<Rightarrow> ArrayInfo \<Rightarrow> ArrayInfo \<times> bool" where
  "cell_name v info =
     (if take 5 v = ''cell_''
      then (info\<lparr>info_var := drop 5 v, info_association := Some FIELD_ASSOCIATION_CELLS\<rparr>, False)
      else (info\<lparr>info_var := v\<rparr>, True))"

definition GetArrayInfo_names ::
  "string list \<Rightarrow> string \<Rightarrow> ArrayInfo \<Rightarrow> (ArrayInfo \<times> bool) option"
where
  "GetArrayInfo_names meshNames varName info =
     (if length meshNames > 1
      then (case string_find varName CHR ''/'' of
              Some pos \<Rightarrow>
                Some (cell_name (drop (pos + 1) varName) (info\<lparr>info_meshName := take pos varName\<rparr>))
            | None \<Rightarrow> Some (info, False))
      else (case meshNames of
              [] \<Rightarrow> None
            | m # ms \<Rightarrow> Some (cell_name varName (info\<lparr>info_meshName := m\<rparr>))))"

definition GetArrayInfoFromVariableName ::
  "string list \<Rightarrow> (string \<Rightarrow> int \<Rightarrow> string list) \<Rightarrow> string \<Rightarrow> ArrayInfo \<Rightarrow> ArrayInfo option"
where
  "GetArrayInfoFromVariableName meshNames da_GetArrayNames varName info =
     (case GetArrayInfo_names meshNames varName info of
        None \<Rightarrow> None
      | Some (info1, findAssociation) \<Rightarrow>
          if findAssociation
          then
            if info_var info1 \<in> set (da_GetArrayNames (info_meshName info1) FIELD_ASSOCIATION_POINTS)
            then Some (info1\<lparr>info_association := Some FIELD_ASSOCIATION_POINTS\<rparr>)
            else if info_var info1 \<in> set (da_GetArrayNames (info_meshName info1) FIELD_ASSOCIATION_CELLS)
            then Some (info1\<lparr>info_association := Some FIELD_ASSOCIATION_CELLS\<rparr>)
            else Some info1
          else Some info1)"

text \<open>
  \<^verbatim>\<open>GetVariable\<close> declares the three variables, two empty strings and an \<^verbatim>\<open>int\<close>
  without a value, and passes them.
\<close>

definition GetVariable_info :: ArrayInfo where
  "GetVariable_info = \<lparr>info_meshName = [], info_var = [], info_association = None\<rparr>"

text \<open>
  The point data and the cell data of the datasets, by array name; a data array is an
  object identity. The data adaptor's \<^verbatim>\<open>AddArray\<close> is the parameter \<open>da_AddArray\<close>,
  which gives the arrays of the datasets after the call.
\<close>

type_synonym vtkDataArray = nat

record DataSetArrays =
  PointData :: "vtkDataSet \<Rightarrow> string \<Rightarrow> vtkDataArray option"
  CellData :: "vtkDataSet \<Rightarrow> string \<Rightarrow> vtkDataArray option"

type_synonym DataAdaptor_AddArray = "DataSetArrays \<Rightarrow> string \<Rightarrow> int \<Rightarrow> string \<Rightarrow> DataSetArrays"

definition AddArray ::
  "DataAdaptor_AddArray \<Rightarrow> PrivateData \<Rightarrow> DataSetArrays \<Rightarrow> string \<Rightarrow> int \<Rightarrow> string
     \<Rightarrow> DataSetArrays"
where
  "AddArray da_AddArray This arrays meshName assoc arrayName =
     (case meshData This meshName of
        None \<Rightarrow> arrays
      | Some mi \<Rightarrow> da_AddArray arrays meshName assoc arrayName)"

text \<open>
  The test \<^verbatim>\<open>association == vtkDataObject::FIELD_ASSOCIATION_POINTS\<close> and the lookup
  \<^verbatim>\<open>GetArray\<close> in the point data or else in the cell data.
\<close>

definition GetArray :: "DataSetArrays \<Rightarrow> vtkDataSet \<Rightarrow> int \<Rightarrow> string \<Rightarrow> vtkDataArray option" where
  "GetArray arrays ds assoc arrayName =
     (if assoc = FIELD_ASSOCIATION_POINTS then PointData arrays ds arrayName
      else CellData arrays ds arrayName)"

text \<open>
  What ends the callback \<^verbatim>\<open>GetVariable\<close> other than a handle: the read of
  \<^verbatim>\<open>meshNames[0]\<close> in an empty vector, the read of the association that was never
  assigned, and the use of a null dataset pointer.
\<close>

datatype fault = VectorOutOfRange | NullDataSet | UnassignedAssociation

text \<open>
  \<^verbatim>\<open>GetVariable\<close> for the global domain \<open>domain\<close> and the name \<open>name\<close>. The result
  \<open>Inr None\<close> is \<^verbatim>\<open>VISIT_INVALID_HANDLE\<close>, \<open>Inr (Some h)\<close> a handle. The handle that
  \<^verbatim>\<open>vtkDataArray_To_VisIt_VariableData\<close> makes of a data array is the parameter
  \<open>to_VariableData\<close>.
\<close>

definition GetVariable ::
  "string list \<Rightarrow> (string \<Rightarrow> int \<Rightarrow> string list) \<Rightarrow> DataSetArrays \<Rightarrow> DataAdaptor_AddArray
     \<Rightarrow> (vtkDataArray \<Rightarrow> 'h option) \<Rightarrow> PrivateData \<Rightarrow> int \<Rightarrow> string \<Rightarrow> fault + 'h option"
where
  "GetVariable meshNames da_GetArrayNames arrays da_AddArray to_VariableData This domain name =
     (case GetArrayInfoFromVariableName meshNames da_GetArrayNames name GetVariable_info of
        None \<Rightarrow> Inl VectorOutOfRange
      | Some info \<Rightarrow>
          let localdomain = GetLocalDomain This (info_meshName info) domain
          in if localdomain \<ge> 0
             then
               let ds = GetDataSet This (info_meshName info) localdomain
               in (case info_association info of
                     None \<Rightarrow> Inl UnassignedAssociation
                   | Some assoc \<Rightarrow>
                       (case ds of
                          None \<Rightarrow> Inl NullDataSet
                        | Some ds \<Rightarrow>
                            (case GetArray arrays ds assoc (info_var info) of
                               Some arr \<Rightarrow> Inr (to_VariableData arr)
                             | None \<Rightarrow>
                                 (case GetArray
                                         (AddArray da_AddArray This arrays (info_meshName info)
                                            assoc (info_var info))
                                         ds assoc (info_var info) of
                                    Some arr \<Rightarrow> Inr (to_VariableData arr)
                                  | None \<Rightarrow> Inr None))))
             else Inr None)"

section \<open>Cell types and connectivity of an unstructured grid\<close>

text \<open>
  The cell types that the table names. Their numbers are in VTK's \<^verbatim>\<open>vtkCellType.h\<close> and
  in Libsim's header, outside the repository: they are the parameters \<open>vtk\<close> and
  \<open>visit\<close>, and \<open>ntypes\<close> is \<^verbatim>\<open>VTK_NUMBER_OF_CELL_TYPES\<close>.
\<close>

datatype vtk_cell =
    VTK_LINE | VTK_TRIANGLE | VTK_QUAD | VTK_TETRA | VTK_PYRAMID | VTK_WEDGE
  | VTK_HEXAHEDRON | VTK_VERTEX
  | VTK_QUADRATIC_EDGE | VTK_QUADRATIC_TRIANGLE | VTK_QUADRATIC_QUAD | VTK_QUADRATIC_TETRA
  | VTK_QUADRATIC_PYRAMID | VTK_QUADRATIC_WEDGE | VTK_QUADRATIC_HEXAHEDRON
  | VTK_BIQUADRATIC_TRIANGLE | VTK_BIQUADRATIC_QUAD | VTK_TRIQUADRATIC_HEXAHEDRON
  | VTK_QUADRATIC_LINEAR_QUAD | VTK_QUADRATIC_LINEAR_WEDGE
  | VTK_BIQUADRATIC_QUADRATIC_WEDGE | VTK_BIQUADRATIC_QUADRATIC_HEXAHEDRON

datatype visit_cell =
    VISIT_CELL_BEAM | VISIT_CELL_TRI | VISIT_CELL_QUAD | VISIT_CELL_TET | VISIT_CELL_PYR
  | VISIT_CELL_WEDGE | VISIT_CELL_HEX | VISIT_CELL_POINT
  | VISIT_CELL_QUADRATIC_EDGE | VISIT_CELL_QUADRATIC_TRI | VISIT_CELL_QUADRATIC_QUAD
  | VISIT_CELL_QUADRATIC_TET | VISIT_CELL_QUADRATIC_PYR | VISIT_CELL_QUADRATIC_WEDGE
  | VISIT_CELL_QUADRATIC_HEX
  | VISIT_CELL_BIQUADRATIC_TRI | VISIT_CELL_BIQUADRATIC_QUAD | VISIT_CELL_TRIQUADRATIC_HEX
  | VISIT_CELL_QUADRATIC_LINEAR_QUAD | VISIT_CELL_QUADRATIC_LINEAR_WEDGE
  | VISIT_CELL_BIQUADRATIC_QUADRATIC_WEDGE | VISIT_CELL_BIQUADRATIC_QUADRATIC_HEX

text \<open>The assignments \<^verbatim>\<open>vtk_to_libsim[VTK_...] = VISIT_CELL_...\<close>, in the source's order.\<close>

definition vtk_to_libsim_assignments :: "(vtk_cell \<times> visit_cell) list" where
  "vtk_to_libsim_assignments =
     [(VTK_LINE, VISIT_CELL_BEAM),
      (VTK_TRIANGLE, VISIT_CELL_TRI),
      (VTK_QUAD, VISIT_CELL_QUAD),
      (VTK_TETRA, VISIT_CELL_TET),
      (VTK_PYRAMID, VISIT_CELL_PYR),
      (VTK_WEDGE, VISIT_CELL_WEDGE),
      (VTK_HEXAHEDRON, VISIT_CELL_HEX),
      (VTK_VERTEX, VISIT_CELL_POINT),
      (VTK_QUADRATIC_EDGE, VISIT_CELL_QUADRATIC_EDGE),
      (VTK_QUADRATIC_TRIANGLE, VISIT_CELL_QUADRATIC_TRI),
      (VTK_QUADRATIC_QUAD, VISIT_CELL_QUADRATIC_QUAD),
      (VTK_QUADRATIC_TETRA, VISIT_CELL_QUADRATIC_TET),
      (VTK_QUADRATIC_PYRAMID, VISIT_CELL_QUADRATIC_PYR),
      (VTK_QUADRATIC_WEDGE, VISIT_CELL_QUADRATIC_WEDGE),
      (VTK_QUADRATIC_HEXAHEDRON, VISIT_CELL_QUADRATIC_HEX),
      (VTK_BIQUADRATIC_TRIANGLE, VISIT_CELL_BIQUADRATIC_TRI),
      (VTK_BIQUADRATIC_QUAD, VISIT_CELL_BIQUADRATIC_QUAD),
      (VTK_TRIQUADRATIC_HEXAHEDRON, VISIT_CELL_TRIQUADRATIC_HEX),
      (VTK_QUADRATIC_LINEAR_QUAD, VISIT_CELL_QUADRATIC_LINEAR_QUAD),
      (VTK_QUADRATIC_LINEAR_WEDGE, VISIT_CELL_QUADRATIC_LINEAR_WEDGE),
      (VTK_BIQUADRATIC_QUADRATIC_WEDGE, VISIT_CELL_BIQUADRATIC_QUADRATIC_WEDGE),
      (VTK_BIQUADRATIC_QUADRATIC_HEXAHEDRON, VISIT_CELL_BIQUADRATIC_QUADRATIC_HEX)]"

text \<open>The table after its initialisation: \<open>- 1\<close> everywhere, then the assignments.\<close>

definition vtk_to_libsim :: "(vtk_cell \<Rightarrow> nat) \<Rightarrow> (visit_cell \<Rightarrow> int) \<Rightarrow> nat \<Rightarrow> int list" where
  "vtk_to_libsim vtk visit ntypes =
     foldl (\<lambda>t (a, b). t[vtk a := visit b]) (replicate ntypes (- 1)) vtk_to_libsim_assignments"

text \<open>
  \<^verbatim>\<open>celltype_vtk_to_libsim\<close>: the entry of the table for an \<^verbatim>\<open>unsigned char\<close>;
  \<open>None\<close> is a read past the end of the table.
\<close>

definition celltype_vtk_to_libsim ::
  "(vtk_cell \<Rightarrow> nat) \<Rightarrow> (visit_cell \<Rightarrow> int) \<Rightarrow> nat \<Rightarrow> 8 word \<Rightarrow> int option"
where
  "celltype_vtk_to_libsim vtk visit ntypes vtkcelltype =
     (if unat vtkcelltype < ntypes
      then Some (vtk_to_libsim vtk visit ntypes ! unat vtkcelltype)
      else None)"

text \<open>
  The arrays of \<^verbatim>\<open>vtkUnstructuredGrid\<close> that the conversion reads: the cell types, the
  connectivity (per cell the number of points, then the point ids) and the position of
  each cell in it. \<^verbatim>\<open>GetNumberOfCells\<close> is the number of cell types and
  \<^verbatim>\<open>GetNumberOfConnectivityEntries\<close> the number of entries of the connectivity.
  Point ids are assumed to fit an \<^verbatim>\<open>int\<close>.
\<close>

record vtkUnstructuredGrid =
  CellTypesArray :: "8 word list"
  Cells :: "int list"
  CellLocationsArray :: "int list"

text \<open>
  The array \<^verbatim>\<open>newconn\<close> with the number of entries stored so far (the pointer
  \<^verbatim>\<open>lsconn\<close>). An entry \<open>None\<close> was never written. A store past the end of the array
  and a read outside the connectivity are \<open>None\<close>.
\<close>

type_synonym newconn = "int option list \<times> nat"

definition store :: "newconn \<Rightarrow> int \<Rightarrow> newconn option" where
  "store st v =
     (case st of
        (conn, lsconn) \<Rightarrow>
          if lsconn < length conn then Some (conn[lsconn := Some v], Suc lsconn) else None)"

definition read_at :: "int list \<Rightarrow> int \<Rightarrow> int option" where
  "read_at a i = (if 0 \<le> i \<and> i < int (length a) then Some (a ! nat i) else None)"

text \<open>The loop \<^verbatim>\<open>for(idx = 0; idx < npts; ++idx) *lsconn++ = cellConn[idx]\<close>.\<close>

fun copy_points :: "int list \<Rightarrow> int \<Rightarrow> nat \<Rightarrow> int \<Rightarrow> newconn \<Rightarrow> newconn option" where
  "copy_points vtkconn cellConn 0 idx st = Some st"
| "copy_points vtkconn cellConn (Suc n) idx st =
     (case read_at vtkconn (cellConn + idx) of
        None \<Rightarrow> None
      | Some v \<Rightarrow>
          (case store st v of
             None \<Rightarrow> None
           | Some st1 \<Rightarrow> copy_points vtkconn cellConn n (idx + 1) st1))"

definition convert_cell ::
  "(8 word \<Rightarrow> int option) \<Rightarrow> int \<Rightarrow> vtkUnstructuredGrid \<Rightarrow> nat \<Rightarrow> newconn \<Rightarrow> newconn option"
where
  "convert_cell celltype cell_point ugrid cellid st =
     (case celltype (CellTypesArray ugrid ! cellid) of
        None \<Rightarrow> None
      | Some lsct \<Rightarrow>
          (case read_at (CellLocationsArray ugrid) (int cellid) of
             None \<Rightarrow> None
           | Some off \<Rightarrow>
               if lsct \<noteq> - 1
               then
                 (case store st lsct of
                    None \<Rightarrow> None
                  | Some st1 \<Rightarrow>
                      (case read_at (Cells ugrid) off of
                         None \<Rightarrow> None
                       | Some npts \<Rightarrow> copy_points (Cells ugrid) (off + 1) (nat npts) 0 st1))
               else
                 (case store st cell_point of
                    None \<Rightarrow> None
                  | Some st1 \<Rightarrow>
                      (case read_at (Cells ugrid) (off + 1) of
                         None \<Rightarrow> None
                       | Some v \<Rightarrow> store st1 v))))"

text \<open>The loop over the cells \<open>cellid, ..., cellid + n - 1\<close>.\<close>

fun convert_cells ::
  "(8 word \<Rightarrow> int option) \<Rightarrow> int \<Rightarrow> vtkUnstructuredGrid \<Rightarrow> nat \<Rightarrow> nat \<Rightarrow> newconn
     \<Rightarrow> newconn option"
where
  "convert_cells celltype cell_point ugrid 0 cellid st = Some st"
| "convert_cells celltype cell_point ugrid (Suc n) cellid st =
     (case convert_cell celltype cell_point ugrid cellid st of
        None \<Rightarrow> None
      | Some st1 \<Rightarrow> convert_cells celltype cell_point ugrid n (Suc cellid) st1)"

text \<open>
  The connectivity that \<^verbatim>\<open>vtkDataSet_to_VisIt_Mesh\<close> builds for an unstructured grid
  with cells: \<^verbatim>\<open>newconn\<close> has \<^verbatim>\<open>connlen\<close> entries, and all of them are handed to Libsim.
\<close>

definition ugrid_connectivity ::
  "(vtk_cell \<Rightarrow> nat) \<Rightarrow> (visit_cell \<Rightarrow> int) \<Rightarrow> nat \<Rightarrow> vtkUnstructuredGrid \<Rightarrow> newconn option"
where
  "ugrid_connectivity vtk visit ntypes ugrid =
     (let ncells = length (CellTypesArray ugrid);
          connlen = length (Cells ugrid)
      in convert_cells (celltype_vtk_to_libsim vtk visit ntypes) (visit VISIT_CELL_POINT)
           ugrid ncells 0 (replicate connlen None, 0))"

text \<open>
  An unstructured grid as VTK lays it out, from its cells (type and point ids): the
  connectivity holds the cells one after the other, and the locations are where each
  begins.
\<close>

fun cell_locations :: "int \<Rightarrow> (8 word \<times> int list) list \<Rightarrow> int list" where
  "cell_locations off [] = []"
| "cell_locations off ((t, pts) # cells) =
     off # cell_locations (off + 1 + int (length pts)) cells"

definition vtk_cell_entries :: "8 word \<times> int list \<Rightarrow> int list" where
  "vtk_cell_entries cell = (case cell of (t, pts) \<Rightarrow> int (length pts) # pts)"

definition ugrid_of_cells :: "(8 word \<times> int list) list \<Rightarrow> vtkUnstructuredGrid" where
  "ugrid_of_cells cells =
     \<lparr>CellTypesArray = map fst cells,
      Cells = concat (map vtk_cell_entries cells),
      CellLocationsArray = cell_locations 0 cells\<rparr>"

text \<open>
  The numbers of the cell types in VTK 8.1 (with \<^verbatim>\<open>VTK_NUMBER_OF_CELL_TYPES\<close> after
  \<^verbatim>\<open>VTK_LAGRANGE_PYRAMID = 75\<close>) and in Libsim's \<^verbatim>\<open>VisItInterfaceTypes_V2.h\<close>, to
  have one instance of the parameters.
\<close>

fun vtk_8_1 :: "vtk_cell \<Rightarrow> nat" where
  "vtk_8_1 VTK_VERTEX = 1"
| "vtk_8_1 VTK_LINE = 3"
| "vtk_8_1 VTK_TRIANGLE = 5"
| "vtk_8_1 VTK_QUAD = 9"
| "vtk_8_1 VTK_TETRA = 10"
| "vtk_8_1 VTK_HEXAHEDRON = 12"
| "vtk_8_1 VTK_WEDGE = 13"
| "vtk_8_1 VTK_PYRAMID = 14"
| "vtk_8_1 VTK_QUADRATIC_EDGE = 21"
| "vtk_8_1 VTK_QUADRATIC_TRIANGLE = 22"
| "vtk_8_1 VTK_QUADRATIC_QUAD = 23"
| "vtk_8_1 VTK_QUADRATIC_TETRA = 24"
| "vtk_8_1 VTK_QUADRATIC_HEXAHEDRON = 25"
| "vtk_8_1 VTK_QUADRATIC_WEDGE = 26"
| "vtk_8_1 VTK_QUADRATIC_PYRAMID = 27"
| "vtk_8_1 VTK_BIQUADRATIC_QUAD = 28"
| "vtk_8_1 VTK_TRIQUADRATIC_HEXAHEDRON = 29"
| "vtk_8_1 VTK_QUADRATIC_LINEAR_QUAD = 30"
| "vtk_8_1 VTK_QUADRATIC_LINEAR_WEDGE = 31"
| "vtk_8_1 VTK_BIQUADRATIC_QUADRATIC_WEDGE = 32"
| "vtk_8_1 VTK_BIQUADRATIC_QUADRATIC_HEXAHEDRON = 33"
| "vtk_8_1 VTK_BIQUADRATIC_TRIANGLE = 34"

fun visit_v2 :: "visit_cell \<Rightarrow> int" where
  "visit_v2 VISIT_CELL_BEAM = 0"
| "visit_v2 VISIT_CELL_TRI = 1"
| "visit_v2 VISIT_CELL_QUAD = 2"
| "visit_v2 VISIT_CELL_TET = 3"
| "visit_v2 VISIT_CELL_PYR = 4"
| "visit_v2 VISIT_CELL_WEDGE = 5"
| "visit_v2 VISIT_CELL_HEX = 6"
| "visit_v2 VISIT_CELL_POINT = 7"
| "visit_v2 VISIT_CELL_QUADRATIC_EDGE = 20"
| "visit_v2 VISIT_CELL_QUADRATIC_TRI = 21"
| "visit_v2 VISIT_CELL_QUADRATIC_QUAD = 22"
| "visit_v2 VISIT_CELL_QUADRATIC_TET = 23"
| "visit_v2 VISIT_CELL_QUADRATIC_PYR = 24"
| "visit_v2 VISIT_CELL_QUADRATIC_WEDGE = 25"
| "visit_v2 VISIT_CELL_QUADRATIC_HEX = 26"
| "visit_v2 VISIT_CELL_BIQUADRATIC_TRI = 27"
| "visit_v2 VISIT_CELL_BIQUADRATIC_QUAD = 28"
| "visit_v2 VISIT_CELL_TRIQUADRATIC_HEX = 29"
| "visit_v2 VISIT_CELL_QUADRATIC_LINEAR_QUAD = 30"
| "visit_v2 VISIT_CELL_QUADRATIC_LINEAR_WEDGE = 31"
| "visit_v2 VISIT_CELL_BIQUADRATIC_QUADRATIC_WEDGE = 32"
| "visit_v2 VISIT_CELL_BIQUADRATIC_QUADRATIC_HEX = 33"


section \<open>Invariant and example data\<close>

text \<open>Datasets and domain ids of every cached mesh are index-aligned.\<close>

definition aligned :: "PrivateData \<Rightarrow> bool" where
  "aligned This \<longleftrightarrow>
     (\<forall>meshName mi. meshData This meshName = Some mi \<longrightarrow>
        length (datasets mi) = length (doms_this_rank mi))"

text \<open>
  The extent table while the loop of \<open>allext_local\<close> runs: \<open>table_upto amr n m t\<close> says
  that \<open>t\<close> has \<open>6 * n\<close> entries, holds the boxes of the patches below \<open>m\<close> and is
  \<open>- 1\<close> elsewhere.
\<close>

definition table_upto :: "vtkOverlappingAMR \<Rightarrow> nat \<Rightarrow> nat \<Rightarrow> int list \<Rightarrow> bool" where
  "table_upto amr n m t \<longleftrightarrow>
     length t = 6 * n \<and>
     (\<forall>j < 6 * n. t ! j =
        (if j div 6 < m
         then (case local_box amr (j div 6) of None \<Rightarrow> - 1 | Some box \<Rightarrow> dims box ! (j mod 6))
         else - 1))"

text \<open>
  A cache with one mesh of two local domains, ids 1 and 2, populated on a communicator
  of two processes and then fetched as a composite dataset of three nodes, one empty.
\<close>

definition cache_example :: PrivateData where
  "cache_example =
     FetchMesh (\<lambda>n s. (0, Some (CompositeDataSet [None, Some 7, Some 8])))
       (AddMeshDataCacheEntry [1, 2] \<lparr>meshData = Map.empty\<rparr> ''mesh'' [1, 2]) ''mesh''"

text \<open>
  Two processes and an AMR dataset of three patches, refinement ratio 2: process 0 holds
  patch 0 (level 0, extent 0 3 0 3 0 0), process 1 holds patches 1 and 2 (level 1,
  extents 0 1 0 1 0 0 and 2 3 2 3 0 0). Each process populates its cache entry, and its
  data adaptor serves its view of the dataset. \<open>scenario_nesting\<close> is the nesting
  object expected on both.
\<close>

definition amr_rank0 :: vtkOverlappingAMR where
  "amr_rank0 =
     \<lparr>NumberOfDataSets = [1, 2], RefinementRatio = [2, 2],
      AMRBox = [Some (0, 3, 0, 3, 0, 0), None, None],
      AMRDataSet = [Some 0, None, None]\<rparr>"

definition amr_rank1 :: vtkOverlappingAMR where
  "amr_rank1 =
     \<lparr>NumberOfDataSets = [1, 2], RefinementRatio = [2, 2],
      AMRBox = [None, Some (0, 1, 0, 1, 0, 0), Some (2, 3, 2, 3, 0, 0)],
      AMRDataSet = [None, Some 1, Some 2]\<rparr>"

definition amr_adaptor :: "vtkOverlappingAMR \<Rightarrow> DataAdaptor_GetMesh" where
  "amr_adaptor amr = (\<lambda>meshName structureOnly. (0, Some (OverlappingAMR amr)))"

definition scenario_states :: "PrivateData list" where
  "scenario_states =
     AddMeshDataCacheEntry_all [\<lparr>meshData = Map.empty\<rparr>, \<lparr>meshData = Map.empty\<rparr>]
       ''mesh'' [[0], [1, 2]]"

definition scenario_nesting :: DomainNesting where
  "scenario_nesting =
     \<lparr>dimensions = (3, 2, 2),
      levelRefinement = [(0, [2, 2, 1]), (1, [2, 2, 1])],
      nestingForPatch =
        [(0, 0, [1, 2], [0, 0, 0, 3, 3, 0]),
         (1, 1, [], [0, 0, 0, 1, 1, 0]),
         (2, 1, [], [2, 2, 0, 3, 3, 0])]\<rparr>"

text \<open>
  One process with two patches: patch 0 is one cell thick in z, patch 1 on the next level
  is eight cells thick.
\<close>

definition amr_flat_then_deep :: vtkOverlappingAMR where
  "amr_flat_then_deep =
     \<lparr>NumberOfDataSets = [1, 1], RefinementRatio = [2, 2],
      AMRBox = [Some (0, 3, 0, 3, 0, 0), Some (0, 7, 0, 7, 0, 7)],
      AMRDataSet = [Some 0, Some 1]\<rparr>"

text \<open>
  A cache entry that was populated but whose mesh was not fetched yet, a data adaptor
  that serves a plain dataset, and an entry whose ghost cell flag is set.
\<close>

definition unfetched_state :: PrivateData where
  "unfetched_state = AddMeshDataCacheEntry [1] \<lparr>meshData = Map.empty\<rparr> ''mesh'' [0]"

definition dataset_adaptor :: DataAdaptor_GetMesh where
  "dataset_adaptor = (\<lambda>meshName structureOnly. (0, Some (DataSet 5)))"

definition ghost_state :: PrivateData where
  "ghost_state =
     \<lparr>meshData =
        [''mesh'' \<mapsto>
           \<lparr>dataObj = None, datasets = [None], ndoms_per_rank = [1], doms_this_rank = [0],
            datasetsHaveGhostCells = True\<rparr>]\<rparr>"

text \<open>A data adaptor without arrays.\<close>

definition no_arrays :: "string \<Rightarrow> int \<Rightarrow> string list" where
  "no_arrays = (\<lambda>meshName association. [])"

text \<open>
  The entries that the specification gives one cell in the converted connectivity: the
  Libsim cell type and the points of the cell when the table has the cell type, and
  otherwise a vertex cell with the first point of the cell.
\<close>

definition libsim_cell ::
  "(vtk_cell \<Rightarrow> nat) \<Rightarrow> (visit_cell \<Rightarrow> int) \<Rightarrow> nat \<Rightarrow> 8 word \<times> int list \<Rightarrow> int list"
where
  "libsim_cell vtk visit ntypes cell =
     (case cell of
        (t, pts) \<Rightarrow>
          if vtk_to_libsim vtk visit ntypes ! unat t \<noteq> - 1
          then vtk_to_libsim vtk visit ntypes ! unat t # pts
          else [visit VISIT_CELL_POINT, hd pts])"

text \<open>
  The array \<^verbatim>\<open>newconn\<close> while the conversion runs: \<open>stored w n st\<close> says that the
  array has \<open>n\<close> entries and that the entries written so far are \<open>w\<close>.
\<close>

definition stored :: "int list \<Rightarrow> nat \<Rightarrow> newconn \<Rightarrow> bool" where
  "stored w n st \<longleftrightarrow>
     (case st of (conn, lsconn) \<Rightarrow>
        length conn = n \<and> lsconn = length w \<and> take lsconn conn = map Some w)"

text \<open>A list of \<open>2 ^ 30\<close> domain ids, for a process that owns that many domains.\<close>

definition many_ids :: "32 word list" where
  "many_ids = replicate (2 ^ 30) 0"

section \<open>Properties of the mesh cache\<close>

lemma SetDataSet_length [simp]: "length (datasets (SetDataSet idx ds mi)) = length (datasets mi)"
  by (simp add: SetDataSet_def)

lemma SetDataSet_doms [simp]: "doms_this_rank (SetDataSet idx ds mi) = doms_this_rank mi"
  by (simp add: SetDataSet_def)

lemma FetchMesh_unpack_length [simp]:
  "length (datasets (FetchMesh_unpack leaves localId mi)) = length (datasets mi)"
  by (induction leaves localId mi rule: FetchMesh_unpack.induct) simp_all

lemma FetchMesh_unpack_doms [simp]:
  "doms_this_rank (FetchMesh_unpack leaves localId mi) = doms_this_rank mi"
  by (induction leaves localId mi rule: FetchMesh_unpack.induct) simp_all

lemma FetchMesh_aligned: "aligned This \<Longrightarrow> aligned (FetchMesh da_GetMesh This meshName)"
  unfolding aligned_def FetchMesh_def
  by (auto simp: SetDataObject_def Let_def split: option.splits prod.splits vtkDataObject.splits if_splits)

lemma cache_state_aligned: "cache_state This \<Longrightarrow> aligned This"
proof (induction rule: cache_state.induct)
  case cache_empty
  show ?case by (simp add: aligned_def)
next
  case (cache_add This recvbuf meshName datasetIds)
  then show ?case
    by (auto simp: aligned_def AddMeshDataCacheEntry_def MeshInfo_new_def)
next
  case (cache_ghost This meshName mi b)
  then show ?case by (auto simp: aligned_def)
next
  case (cache_fetch This da_GetMesh meshName)
  from cache_fetch.IH show ?case by (rule FetchMesh_aligned)
next
  case (cache_clear This)
  show ?case by (simp add: aligned_def ClearMeshDataCache_def)
qed

lemma GetLocalDomain_loop_found:
  "gdom \<in> set ds \<Longrightarrow>
   i \<le> GetLocalDomain_loop gdom ds i \<and> GetLocalDomain_loop gdom ds i < i + int (length ds) \<and>
   ds ! nat (GetLocalDomain_loop gdom ds i - i) = gdom"
proof (induction ds arbitrary: i)
  case Nil
  then show ?case by simp
next
  case (Cons d ds)
  show ?case
  proof (cases "gdom = d")
    case True
    then show ?thesis by simp
  next
    case False
    with Cons.prems have "gdom \<in> set ds" by simp
    from Cons.IH [OF this, of "i + 1"]
    have lo: "i + 1 \<le> GetLocalDomain_loop gdom ds (i + 1)"
      and hi: "GetLocalDomain_loop gdom ds (i + 1) < i + 1 + int (length ds)"
      and at: "ds ! nat (GetLocalDomain_loop gdom ds (i + 1) - (i + 1)) = gdom"
      by simp_all
    from lo have "nat (GetLocalDomain_loop gdom ds (i + 1) - i) =
        Suc (nat (GetLocalDomain_loop gdom ds (i + 1) - (i + 1)))"
      by linarith
    with lo hi at False show ?thesis by simp
  qed
qed

lemma GetLocalDomain_loop_missing:
  "gdom \<notin> set ds \<Longrightarrow> GetLocalDomain_loop gdom ds i = - 1"
  by (induction ds arbitrary: i) auto

text \<open>
  Claim C4. In every state of the cache, for a cached mesh and every id \<open>g\<close> in the
  list of local domain ids that \<^verbatim>\<open>GetDomains\<close> hands out, \<^verbatim>\<open>GetLocalDomain\<close> returns
  an index that is not negative and is less than the number of datasets of the mesh,
  and the id at that index is \<open>g\<close> again.
\<close>

theorem GetLocalDomain_round_trip:
  assumes "cache_state This"
    and "meshData This meshName = Some mi"
    and "g \<in> set (GetDomains This meshName)"
  shows "0 \<le> GetLocalDomain This meshName g \<and>
         GetLocalDomain This meshName g < int (length (datasets mi)) \<and>
         GetDomains This meshName ! nat (GetLocalDomain This meshName g) = g"
proof -
  from assms(2,3) obtain w where w: "w \<in> set (doms_this_rank mi)" and g: "g = sint w"
    by (auto simp: GetDomains_def)
  have len: "length (datasets mi) = length (doms_this_rank mi)"
    using cache_state_aligned [OF assms(1)] assms(2) by (simp add: aligned_def)
  have wg: "word_of_int g = w" by (simp add: g)
  from GetLocalDomain_loop_found [OF w, of 0]
  show ?thesis using assms(2) len wg
    by (auto simp: GetLocalDomain_def GetDomains_def g)
qed


text \<open>Arithmetic in a C \<^verbatim>\<open>int\<close>.\<close>

lemma int32_int32_add: "int32 (int32 a + b) = int32 (a + b)"
  by (simp add: int32_def)

lemma int32_small: "- (2 ^ 31) \<le> x \<Longrightarrow> x < 2 ^ 31 \<Longrightarrow> int32 x = x"
  unfolding int32_def by (simp add: sint_sbintrunc' signed_take_bit_int_eq_self)

lemma int32_0: "int32 0 = 0"
  by (simp add: int32_def)

lemma GetTotalDomains_loop_sum:
  "i + n = length v \<Longrightarrow>
   GetTotalDomains_loop v i n (int32 tot) = Some (int32 (tot + sum_list (drop i v)))"
proof (induction n arbitrary: i tot)
  case 0
  then show ?case by simp
next
  case (Suc n)
  then have i: "i < length v" by simp
  from Suc.prems have "Suc i + n = length v" by simp
  from Suc.IH [OF this, of "tot + v ! i"] i show ?case
    by (simp add: Cons_nth_drop_Suc [symmetric] int32_int32_add add.assoc)
qed

lemma sum_list_nonneg_le:
  "\<forall>x \<in> set xs. (0::int) \<le> x \<Longrightarrow> x \<in> set xs \<Longrightarrow> x \<le> sum_list xs"
  by (induction xs) (auto simp: sum_list_nonneg add_increasing add_increasing2)

lemma ndoms_small:
  assumes "(\<Sum>ids \<leftarrow> datasetIdss. int (length ids)) < 2 ^ 31"
  shows "map (\<lambda>ids. int32 (int (length ids))) datasetIdss = map (\<lambda>ids. int (length ids)) datasetIdss"
proof (rule map_cong [OF refl])
  fix ids assume "ids \<in> set datasetIdss"
  then have "int (length ids) \<in> set (map (\<lambda>ids. int (length ids)) datasetIdss)" by simp
  moreover have "\<forall>x \<in> set (map (\<lambda>ids. int (length ids)) datasetIdss). 0 \<le> x" by simp
  ultimately have "int (length ids) \<le> (\<Sum>ids \<leftarrow> datasetIdss. int (length ids))"
    by (rule sum_list_nonneg_le [rotated])
  with assms show "int32 (int (length ids)) = int (length ids)"
    by (intro int32_small) simp_all
qed

text \<open>
  Claim C3, as amended. After the processes of a communicator have populated the entry of
  a mesh together, on every process \<open>r\<close> the entry exists and has as many datasets as
  domain ids; \<^verbatim>\<open>ndoms_per_rank\<close> holds the domain count of each process as a C
  \<^verbatim>\<open>int\<close>, and \<^verbatim>\<open>GetTotalDomains\<close> returns their sum as a C \<^verbatim>\<open>int\<close>. When the counts of
  all processes add up to less than \<open>2 ^ 31\<close>, \<^verbatim>\<open>ndoms_per_rank\<close> holds the counts
  themselves and \<^verbatim>\<open>GetTotalDomains\<close> returns the sum of \<^verbatim>\<open>ndoms_per_rank\<close>.
\<close>

theorem AddMeshDataCacheEntry_all_counts:
  assumes "r < length datasetIdss"
  shows "\<exists>mi. meshData (AddMeshDataCacheEntry_all Thiss meshName datasetIdss ! r) meshName = Some mi \<and>
           doms_this_rank mi = datasetIdss ! r \<and>
           length (datasets mi) = length (doms_this_rank mi) \<and>
           ndoms_per_rank mi = map (\<lambda>ids. int32 (int (length ids))) datasetIdss \<and>
           GetTotalDomains (length datasetIdss)
             (AddMeshDataCacheEntry_all Thiss meshName datasetIdss ! r) meshName =
             Some (int32 (sum_list (ndoms_per_rank mi))) \<and>
           ((\<Sum>ids \<leftarrow> datasetIdss. int (length ids)) < 2 ^ 31 \<longrightarrow>
              ndoms_per_rank mi = map (\<lambda>ids. int (length ids)) datasetIdss \<and>
              GetTotalDomains (length datasetIdss)
                (AddMeshDataCacheEntry_all Thiss meshName datasetIdss ! r) meshName =
                Some (sum_list (ndoms_per_rank mi)))"
proof -
  let ?nd = "map (\<lambda>ids. int32 (int (length ids))) datasetIdss"
  let ?This = "AddMeshDataCacheEntry_all Thiss meshName datasetIdss ! r"
  let ?mi = "MeshInfo_new
        \<lparr>datasets := replicate (length (datasetIdss ! r)) None,
         doms_this_rank := datasetIdss ! r,
         ndoms_per_rank := ?nd\<rparr>"
  have entry: "meshData ?This meshName = Some ?mi"
    using assms
    by (simp add: AddMeshDataCacheEntry_all_def AddMeshDataCacheEntry_def MPI_Allgather_def
        Let_def)
  have "GetTotalDomains_loop ?nd 0 (length datasetIdss) (int32 0) =
      Some (int32 (0 + sum_list (drop 0 ?nd)))"
    by (rule GetTotalDomains_loop_sum) simp
  then have loop: "GetTotalDomains_loop ?nd 0 (length datasetIdss) 0 = Some (int32 (sum_list ?nd))"
    by (simp add: int32_0)
  have total: "GetTotalDomains (length datasetIdss) ?This meshName = Some (int32 (sum_list ?nd))"
    using loop by (simp add: GetTotalDomains_def entry)
  have small: "?nd = map (\<lambda>ids. int (length ids)) datasetIdss \<and>
      GetTotalDomains (length datasetIdss) ?This meshName = Some (sum_list ?nd)"
    if b: "(\<Sum>ids \<leftarrow> datasetIdss. int (length ids)) < 2 ^ 31"
  proof -
    from ndoms_small [OF b] have eq: "?nd = map (\<lambda>ids. int (length ids)) datasetIdss" .
    have "0 \<le> (\<Sum>ids \<leftarrow> datasetIdss. int (length ids))"
      by (rule sum_list_nonneg) auto
    with b have "int32 (\<Sum>ids \<leftarrow> datasetIdss. int (length ids)) =
        (\<Sum>ids \<leftarrow> datasetIdss. int (length ids))"
      by (intro int32_small) simp_all
    then have "int32 (sum_list ?nd) = sum_list ?nd"
      unfolding eq .
    with total have "GetTotalDomains (length datasetIdss) ?This meshName = Some (sum_list ?nd)"
      by (simp only:)
    with eq show ?thesis ..
  qed
  show ?thesis
    using entry total small by (intro exI [of _ ?mi]) simp
qed

theorem AddMeshDataCacheEntry_all_counts_witness:
  "\<exists>mi. meshData (AddMeshDataCacheEntry_all
              [\<lparr>meshData = Map.empty\<rparr>, \<lparr>meshData = Map.empty\<rparr>] ''mesh'' [[0], [1, 2]] ! 1)
            ''mesh'' = Some mi \<and>
        GetTotalDomains 2
          (AddMeshDataCacheEntry_all
             [\<lparr>meshData = Map.empty\<rparr>, \<lparr>meshData = Map.empty\<rparr>] ''mesh'' [[0], [1, 2]] ! 1)
          ''mesh'' = Some 3 \<and>
        sum_list (ndoms_per_rank mi) = 3 \<and>
        length (datasets mi) = 2 \<and> length (doms_this_rank mi) = 2"
proof -
  let ?This = "AddMeshDataCacheEntry_all
      [\<lparr>meshData = Map.empty\<rparr>, \<lparr>meshData = Map.empty\<rparr>] ''mesh'' [[0], [1, 2]] ! 1"
  have r: "(1::nat) < length [[0], [1, 2 :: 32 word]]" by simp
  have b: "(\<Sum>ids \<leftarrow> [[0], [1, 2 :: 32 word]]. int (length ids)) < 2 ^ 31" by simp
  from AddMeshDataCacheEntry_all_counts [OF r, of "[\<lparr>meshData = Map.empty\<rparr>, \<lparr>meshData = Map.empty\<rparr>]" "''mesh''"] b
  obtain mi where mi: "meshData ?This ''mesh'' = Some mi"
    and doms: "doms_this_rank mi = [[0], [1, 2 :: 32 word]] ! 1"
    and len: "length (datasets mi) = length (doms_this_rank mi)"
    and nd: "ndoms_per_rank mi = map (\<lambda>ids. int (length ids)) [[0], [1, 2 :: 32 word]]"
    and tot: "GetTotalDomains (length [[0], [1, 2 :: 32 word]]) ?This ''mesh'' =
        Some (sum_list (ndoms_per_rank mi))"
    by blast
  from nd have s: "sum_list (ndoms_per_rank mi) = 3" by simp
  from doms have d: "length (doms_this_rank mi) = 2" by simp
  from mi tot s d len show ?thesis by (simp add: numeral_2_eq_2)
qed

lemma length_many_ids: "length many_ids = 2 ^ 30"
  unfolding many_ids_def by (rule length_replicate)

text \<open>
  Claim C3 as stated fails: when each of two processes owns \<open>2 ^ 30\<close> domains, the
  entries of \<^verbatim>\<open>ndoms_per_rank\<close> add up to \<open>2 ^ 31\<close>, and \<^verbatim>\<open>GetTotalDomains\<close> returns
  \<open>- 2 ^ 31\<close>.
\<close>

theorem GetTotalDomains_overflow_counterexample:
  "sum_list (ndoms_per_rank (the (meshData
       (AddMeshDataCacheEntry_all [\<lparr>meshData = Map.empty\<rparr>, \<lparr>meshData = Map.empty\<rparr>]
          ''mesh'' [many_ids, many_ids] ! 0) ''mesh''))) = 2147483648 \<and>
   GetTotalDomains 2
     (AddMeshDataCacheEntry_all [\<lparr>meshData = Map.empty\<rparr>, \<lparr>meshData = Map.empty\<rparr>]
        ''mesh'' [many_ids, many_ids] ! 0) ''mesh'' = Some (- 2147483648)"
proof -
  let ?This = "AddMeshDataCacheEntry_all [\<lparr>meshData = Map.empty\<rparr>, \<lparr>meshData = Map.empty\<rparr>]
          ''mesh'' [many_ids, many_ids] ! 0"
  have c: "int32 (int (length many_ids)) = 1073741824"
    unfolding length_many_ids by (simp add: int32_def)
  have nd: "ndoms_per_rank (the (meshData ?This ''mesh'')) = [1073741824, 1073741824]"
    by (simp add: AddMeshDataCacheEntry_all_def AddMeshDataCacheEntry_def MPI_Allgather_def
        Let_def c)
  have entry: "\<exists>mi. meshData ?This ''mesh'' = Some mi"
    by (simp add: AddMeshDataCacheEntry_all_def AddMeshDataCacheEntry_def MPI_Allgather_def
        Let_def)
  have w1: "int32 1073741824 = 1073741824" and w2: "int32 2147483648 = - 2147483648"
    by (simp_all add: int32_def)
  from entry nd have "GetTotalDomains 2 ?This ''mesh'' = Some (- 2147483648)"
    by (auto simp: GetTotalDomains_def numeral_2_eq_2 w1 w2)
  with nd show ?thesis by simp
qed

text \<open>
  Claim C10. \<^verbatim>\<open>GetDataSet\<close> returns the null pointer when the mesh has no entry and
  when \<open>localdomain\<close> is negative or not less than the number of datasets; otherwise
  the index is within the vector and the result is the stored dataset.
\<close>

theorem GetDataSet_total:
  "(meshData This meshName = None \<longrightarrow> GetDataSet This meshName localdomain = None) \<and>
   (\<forall>mi. meshData This meshName = Some mi \<longrightarrow>
      (localdomain < 0 \<or> int (length (datasets mi)) \<le> localdomain \<longrightarrow>
         GetDataSet This meshName localdomain = None) \<and>
      (0 \<le> localdomain \<and> localdomain < int (length (datasets mi)) \<longrightarrow>
         nat localdomain < length (datasets mi) \<and>
         GetDataSet This meshName localdomain = datasets mi ! nat localdomain))"
  by (auto simp: GetDataSet_def)

lemma cache_example_mesh:
  "meshData cache_example ''mesh'' =
     Some \<lparr>dataObj = Some (CompositeDataSet [None, Some 7, Some 8]),
           datasets = [Some 7, Some 8], ndoms_per_rank = [1, 2], doms_this_rank = [1, 2],
           datasetsHaveGhostCells = False\<rparr>"
  by (simp add: cache_example_def FetchMesh_def AddMeshDataCacheEntry_def MeshInfo_new_def
      SetDataObject_def SetDataSet_def numeral_2_eq_2)

lemma cache_example_other: "meshData cache_example ''other'' = None"
  by (simp add: cache_example_def FetchMesh_def AddMeshDataCacheEntry_def MeshInfo_new_def
      SetDataObject_def SetDataSet_def numeral_2_eq_2)

lemma cache_example_state: "cache_state cache_example"
  unfolding cache_example_def by (intro cache_fetch cache_add cache_empty)

theorem GetDataSet_total_witness:
  "meshData cache_example ''other'' = None \<and> GetDataSet cache_example ''other'' 0 = None \<and>
   GetDataSet cache_example ''mesh'' (- 1) = None \<and>
   GetDataSet cache_example ''mesh'' 2 = None \<and>
   GetDataSet cache_example ''mesh'' 1 = Some 8"
  using GetDataSet_total [of cache_example "''other''" 0]
    GetDataSet_total [of cache_example "''mesh''" "- 1"]
    GetDataSet_total [of cache_example "''mesh''" 2]
    GetDataSet_total [of cache_example "''mesh''" 1]
  by (simp add: cache_example_mesh cache_example_other)

theorem GetLocalDomain_round_trip_witness:
  "cache_state cache_example \<and> 2 \<in> set (GetDomains cache_example ''mesh'') \<and>
   GetLocalDomain cache_example ''mesh'' 2 = 1 \<and>
   GetDataSet cache_example ''mesh'' (GetLocalDomain cache_example ''mesh'' 2) = Some 8"
proof -
  have g: "2 \<in> set (GetDomains cache_example ''mesh'')"
    by (simp add: GetDomains_def cache_example_mesh)
  from GetLocalDomain_round_trip [OF cache_example_state cache_example_mesh g]
  have "0 \<le> GetLocalDomain cache_example ''mesh'' 2"
    and "GetLocalDomain cache_example ''mesh'' 2 < 2"
    and "GetDomains cache_example ''mesh'' ! nat (GetLocalDomain cache_example ''mesh'' 2) = 2"
    by simp_all
  moreover have "GetLocalDomain cache_example ''mesh'' 2 = 1"
    by (simp add: GetLocalDomain_def cache_example_mesh)
  ultimately show ?thesis
    using g cache_example_state by (simp add: GetDataSet_def cache_example_mesh)
qed

section \<open>Properties of the domain nesting\<close>

subsection \<open>The extent table and its reduction\<close>

lemma length_dims [simp]: "length (dims box) = 6"
  by (cases box rule: dims.cases) simp

lemma length_GetDimensions:
  "6 * i + 6 \<le> length allext \<Longrightarrow> length (GetDimensions allext i box) = length allext"
  by (simp add: GetDimensions_def)

lemma nth_GetDimensions:
  assumes "6 * i + 6 \<le> length allext" and "j < length allext"
  shows "GetDimensions allext i box ! j =
           (if j div 6 = i then dims box ! (j mod 6) else allext ! j)"
proof -
  consider "j < 6 * i" | "6 * i \<le> j" "j < 6 * i + 6" | "6 * i + 6 \<le> j" by linarith
  then show ?thesis
  proof cases
    case 1
    then have "j div 6 \<noteq> i" by auto
    with 1 assms show ?thesis by (simp add: GetDimensions_def nth_append)
  next
    case 2
    then have d: "j div 6 = i" by auto
    from 2 have m: "j mod 6 = j - 6 * i" using d by (metis minus_mult_div_eq_mod)
    from 2 have lt: "j - 6 * i < 6" by linarith
    from 2 assms have "(take (6 * i) allext @ dims box @ drop (6 * i + 6) allext) ! j =
        dims box ! (j - 6 * i)"
      using lt by (simp add: nth_append min_def)
    with d m show ?thesis by (simp add: GetDimensions_def)
  next
    case 3
    then have "j div 6 \<noteq> i" by auto
    moreover from 3 have ge: "\<not> j - 6 * i < 6" by linarith
    from 3 assms have "(take (6 * i) allext @ dims box @ drop (6 * i + 6) allext) ! j = allext ! j"
      using ge by (simp add: nth_append min_def)
    ultimately show ?thesis by (simp add: GetDimensions_def)
  qed
qed

lemma allext_patch_step:
  assumes "table_upto amr n m t" and "m < n"
  shows "table_upto amr n (Suc m) (allext_patch amr t m)"
proof (cases "local_box amr m")
  case None
  with assms show ?thesis
    by (auto simp: table_upto_def allext_patch_def less_Suc_eq)
next
  case (Some box)
  from assms have len: "length t = 6 * n" and fit: "6 * m + 6 \<le> length t"
    by (auto simp: table_upto_def)
  have "length (GetDimensions t m box) = 6 * n"
    using length_GetDimensions [OF fit] len by simp
  moreover have "GetDimensions t m box ! j =
        (if j div 6 < Suc m
         then (case local_box amr (j div 6) of None \<Rightarrow> - 1 | Some b \<Rightarrow> dims b ! (j mod 6))
         else - 1)" if "j < 6 * n" for j
  proof -
    from that len have j: "j < length t" by simp
    from assms(1) that have old: "t ! j =
        (if j div 6 < m
         then (case local_box amr (j div 6) of None \<Rightarrow> - 1 | Some b \<Rightarrow> dims b ! (j mod 6))
         else - 1)"
      by (simp add: table_upto_def)
    show ?thesis
      unfolding nth_GetDimensions [OF fit j] using old Some by (auto simp: less_Suc_eq)
  qed
  ultimately show ?thesis
    using Some by (simp add: table_upto_def allext_patch_def)
qed

lemma allext_fold:
  "m \<le> n \<Longrightarrow> table_upto amr n m (foldl (allext_patch amr) (replicate (6 * n) (- 1)) [0 ..< m])"
proof (induction m)
  case 0
  show ?case by (simp add: table_upto_def)
next
  case (Suc m)
  then have "table_upto amr n m (foldl (allext_patch amr) (replicate (6 * n) (- 1)) [0 ..< m])"
    by simp
  from allext_patch_step [OF this] Suc.prems show ?case by simp
qed

lemma length_allext_local [simp]:
  "length (allext_local amr) = 6 * GetTotalNumberOfBlocks amr"
  using allext_fold [of "GetTotalNumberOfBlocks amr" "GetTotalNumberOfBlocks amr" amr]
  by (simp add: allext_local_def table_upto_def)

lemma nth_allext_local:
  assumes "i < GetTotalNumberOfBlocks amr" and "k < 6"
  shows "allext_local amr ! (6 * i + k) =
           (case local_box amr i of None \<Rightarrow> - 1 | Some box \<Rightarrow> dims box ! k)"
proof -
  from assms have j: "6 * i + k < 6 * GetTotalNumberOfBlocks amr" by simp
  from assms have d: "(6 * i + k) div 6 = i" and m: "(6 * i + k) mod 6 = k" by simp_all
  from allext_fold [of "GetTotalNumberOfBlocks amr" "GetTotalNumberOfBlocks amr" amr]
  have "table_upto amr (GetTotalNumberOfBlocks amr) (GetTotalNumberOfBlocks amr) (allext_local amr)"
    by (simp add: allext_local_def)
  then have "allext_local amr ! (6 * i + k) =
      (if (6 * i + k) div 6 < GetTotalNumberOfBlocks amr
       then (case local_box amr ((6 * i + k) div 6) of None \<Rightarrow> - 1
             | Some box \<Rightarrow> dims box ! ((6 * i + k) mod 6))
       else - 1)"
    using j unfolding table_upto_def by blast
  then show ?thesis
    unfolding d m using assms(1) by simp
qed

lemma max_reduce_length:
  "bufs \<noteq> [] \<Longrightarrow> \<forall>b \<in> set bufs. length b = n \<Longrightarrow> length (max_reduce bufs) = n"
  by (induction bufs rule: max_reduce.induct) auto

lemma max_reduce_nth:
  "bufs \<noteq> [] \<Longrightarrow> \<forall>b \<in> set bufs. length b = n \<Longrightarrow> j < n \<Longrightarrow>
   max_reduce bufs ! j = Max ((\<lambda>b. b ! j) ` set bufs)"
proof (induction bufs rule: max_reduce.induct)
  case 1
  then show ?case by simp
next
  case (2 buf)
  then show ?case by simp
next
  case (3 buf b bufs)
  have len: "length (max_reduce (b # bufs)) = n"
    using 3 by (intro max_reduce_length) auto
  have "max_reduce (b # bufs) ! j = Max ((\<lambda>b. b ! j) ` set (b # bufs))"
    using 3 by simp
  moreover have "max_reduce (buf # b # bufs) ! j = max (buf ! j) (max_reduce (b # bufs) ! j)"
    using 3 len by simp
  ultimately show ?case by (simp del: max_reduce.simps)
qed

text \<open>
  Every process continues after the reduction with the same table, the element-wise
  maximum of the tables of all processes.
\<close>

lemma allreduce_same_table:
  "continue_with sendbufs (GetDomainNesting_amr rank nranks amr) =
     nesting_children rank nranks amr (max_reduce sendbufs)"
  by (simp add: GetDomainNesting_amr_def)

lemma max_reduce_allext_nth:
  assumes "amrs \<noteq> []"
    and "\<forall>amr \<in> set amrs. GetTotalNumberOfBlocks amr = n"
    and "i < n" and "k < 6"
  shows "max_reduce (map allext_local amrs) ! (6 * i + k) =
           Max ((\<lambda>amr. case local_box amr i of None \<Rightarrow> - 1 | Some box \<Rightarrow> dims box ! k) ` set amrs)"
proof -
  have len: "\<forall>b \<in> set (map allext_local amrs). length b = 6 * n"
    using assms(2) by simp
  have ne: "map allext_local amrs \<noteq> []" using assms(1) by simp
  have j: "6 * i + k < 6 * n" using assms(3,4) by simp
  have "max_reduce (map allext_local amrs) ! (6 * i + k) =
          Max ((\<lambda>b. b ! (6 * i + k)) ` set (map allext_local amrs))"
    by (rule max_reduce_nth [OF ne len j])
  also have "(\<lambda>b. b ! (6 * i + k)) ` set (map allext_local amrs) =
          (\<lambda>amr. allext_local amr ! (6 * i + k)) ` set amrs"
    by (simp add: image_image)
  also have "\<dots> = (\<lambda>amr. case local_box amr i of None \<Rightarrow> - 1 | Some box \<Rightarrow> dims box ! k) ` set amrs"
    using assms(2,3,4) by (intro image_cong refl nth_allext_local) simp_all
  finally show ?thesis .
qed

text \<open>
  Claim C1. Let the processes hold AMR datasets with the same number \<open>n\<close> of patches.
  After each has filled its table (\<open>- 1\<close> everywhere, then the boxes it holds) and the
  tables have been reduced with the element-wise maximum, the table that every process
  receives has \<open>6 * n\<close> entries; for a patch \<open>i\<close> whose box some process holds,
  all holders agreeing on it and its entries being at least 0, the six entries of the patch
  are those of the box; for a patch that no process holds they are \<open>- 1\<close>.
\<close>

theorem allreduce_recovers_extents:
  assumes "amrs \<noteq> []"
    and "\<forall>amr \<in> set amrs. GetTotalNumberOfBlocks amr = n"
    and "i < n" and "k < 6"
  shows "length (max_reduce (map allext_local amrs)) = 6 * n \<and>
         ((\<exists>amr \<in> set amrs. local_box amr i = Some box) \<and>
          (\<forall>amr \<in> set amrs. local_box amr i = None \<or> local_box amr i = Some box) \<and>
          (\<forall>k < 6. 0 \<le> dims box ! k) \<longrightarrow>
            max_reduce (map allext_local amrs) ! (6 * i + k) = dims box ! k) \<and>
         ((\<forall>amr \<in> set amrs. local_box amr i = None) \<longrightarrow>
            max_reduce (map allext_local amrs) ! (6 * i + k) = - 1)"
proof (intro conjI impI)
  show "length (max_reduce (map allext_local amrs)) = 6 * n"
    using assms(1,2) by (intro max_reduce_length) simp_all
next
  let ?f = "\<lambda>amr. case local_box amr i of None \<Rightarrow> - 1 | Some b \<Rightarrow> dims b ! k"
  assume h: "(\<exists>amr \<in> set amrs. local_box amr i = Some box) \<and>
          (\<forall>amr \<in> set amrs. local_box amr i = None \<or> local_box amr i = Some box) \<and>
          (\<forall>k < 6. 0 \<le> dims box ! k)"
  then obtain a where a: "a \<in> set amrs" "local_box a i = Some box" by blast
  from h assms(4) have pos: "0 \<le> dims box ! k" by blast
  have "Max (?f ` set amrs) = dims box ! k"
  proof (rule Max_eqI)
    show "finite (?f ` set amrs)" by simp
    show "y \<le> dims box ! k" if "y \<in> ?f ` set amrs" for y
    proof -
      from that obtain amr where amr: "amr \<in> set amrs" and y: "y = ?f amr" by blast
      from h amr have "local_box amr i = None \<or> local_box amr i = Some box" by blast
      with y pos show ?thesis by auto
    qed
    show "dims box ! k \<in> ?f ` set amrs"
      using a by (force simp: image_iff)
  qed
  then show "max_reduce (map allext_local amrs) ! (6 * i + k) = dims box ! k"
    using max_reduce_allext_nth [OF assms] by simp
next
  let ?f = "\<lambda>amr. case local_box amr i of None \<Rightarrow> - 1 | Some b \<Rightarrow> dims b ! k"
  assume h: "\<forall>amr \<in> set amrs. local_box amr i = None"
  then have "?f ` set amrs = (\<lambda>amr. - 1) ` set amrs"
    by (intro image_cong) simp_all
  also have "\<dots> = {- 1}" using assms(1) by (cases amrs) auto
  finally have "Max (?f ` set amrs) = - 1" by simp
  then show "max_reduce (map allext_local amrs) ! (6 * i + k) = - 1"
    using max_reduce_allext_nth [OF assms] by simp
qed

subsection \<open>The partition of the work list\<close>

lemma rankn_Suc:
  "rankn (Suc ws) n =
     (rankn ws n)[ws mod n := rankn ws n ! (ws mod n) + 1]"
  by (simp add: rankn_def)

lemma length_rankn [simp]: "length (rankn ws n) = n"
  by (induction ws) (simp_all add: rankn_Suc, simp add: rankn_def)

lemma rankn_count:
  assumes "0 < n" and "r < n"
  shows "rankn ws n ! r = int (card {i. i < ws \<and> i mod n = r})"
proof (induction ws)
  case 0
  from assms show ?case by (simp add: rankn_def)
next
  case (Suc ws)
  have split: "{i. i < Suc ws \<and> i mod n = r} =
      {i. i < ws \<and> i mod n = r} \<union> (if ws mod n = r then {ws} else {})"
    by (auto simp: less_Suc_eq)
  have fin: "finite {i. i < ws \<and> i mod n = r}" by simp
  have notin: "ws \<notin> {i. i < ws \<and> i mod n = r}" by simp
  show ?case
  proof (cases "ws mod n = r")
    case True
    with assms Suc fin notin show ?thesis
      by (simp add: rankn_Suc split)
  next
    case False
    with assms Suc show ?thesis
      by (simp add: rankn_Suc split)
  qed
qed

lemma rankn_nonneg: "0 < n \<Longrightarrow> r < n \<Longrightarrow> 0 \<le> rankn ws n ! r"
  by (simp add: rankn_count)

lemma sum_list_update_int:
  "k < length xs \<Longrightarrow> sum_list (xs[k := x]) = sum_list xs + x - (xs ! k :: int)"
  by (induction xs arbitrary: k) (auto split: nat.splits)

lemma sum_list_rankn: "0 < n \<Longrightarrow> sum_list (rankn ws n) = int ws"
proof (induction ws)
  case 0
  then show ?case by (simp add: rankn_def sum_list_replicate)
next
  case (Suc ws)
  then have "ws mod n < length (rankn ws n)" by simp
  then have "sum_list ((rankn ws n)[ws mod n := rankn ws n ! (ws mod n) + 1]) =
      sum_list (rankn ws n) + 1"
    by (simp add: sum_list_update_int)
  with Suc show ?case by (simp add: rankn_Suc)
qed

lemma mywork_offset_sum:
  "r \<le> length rn \<Longrightarrow> mywork_offset rn r = sum_list (take r rn)"
proof (induction r)
  case 0
  show ?case by (simp add: mywork_offset_def)
next
  case (Suc r)
  then have "mywork_offset rn (Suc r) = mywork_offset rn r + rn ! r"
    by (simp add: mywork_offset_def)
  with Suc show ?case by (simp add: take_Suc_conv_app_nth)
qed

lemma map_nth_take_drop:
  "off + c \<le> length wk \<Longrightarrow> map (\<lambda>i. wk ! (off + i)) [0 ..< c] = take c (drop off wk)"
  by (rule nth_equalityI) simp_all

lemma sum_list_take_le:
  assumes "\<forall>x \<in> set xs. (0::int) \<le> x"
  shows "sum_list (take r xs) \<le> sum_list xs"
proof -
  have "sum_list xs = sum_list (take r xs) + sum_list (drop r xs)"
    by (metis append_take_drop_id sum_list_append)
  moreover have "0 \<le> sum_list (drop r xs)"
    using assms by (intro sum_list_nonneg) (auto dest: in_set_dropD)
  ultimately show ?thesis by simp
qed

lemma rankn_all_nonneg: "0 < n \<Longrightarrow> \<forall>x \<in> set (rankn ws n). 0 \<le> x"
  by (auto simp: in_set_conv_nth rankn_nonneg)

lemma mywork_block:
  assumes "0 < n" and "r < n"
  shows "mywork wk r n =
           take (nat (rankn (length wk) n ! r))
             (drop (nat (mywork_offset (rankn (length wk) n) r)) wk)"
proof -
  let ?rn = "rankn (length wk) n"
  have off: "mywork_offset ?rn r = sum_list (take r ?rn)"
    using assms by (intro mywork_offset_sum) simp
  have "sum_list (take (Suc r) ?rn) \<le> sum_list ?rn"
    using assms by (intro sum_list_take_le rankn_all_nonneg)
  then have "sum_list (take r ?rn) + ?rn ! r \<le> int (length wk)"
    using assms by (simp add: take_Suc_conv_app_nth sum_list_rankn)
  moreover have "0 \<le> sum_list (take r ?rn)"
    using assms rankn_all_nonneg [of n "length wk"]
    by (intro sum_list_nonneg) (auto dest: in_set_takeD)
  moreover have "0 \<le> ?rn ! r" using assms by (rule rankn_nonneg)
  ultimately have "nat (mywork_offset ?rn r) + nat (?rn ! r) \<le> length wk"
    using off by linarith
  from map_nth_take_drop [OF this] show ?thesis
    by (simp add: mywork_def Let_def)
qed

lemma concat_blocks:
  "sum_list cs \<le> length wk \<Longrightarrow>
   concat (map (\<lambda>r. take (cs ! r) (drop (sum_list (take r cs)) wk)) [0 ..< length cs]) =
     take (sum_list cs) wk"
proof (induction cs rule: rev_induct)
  case Nil
  show ?case by simp
next
  case (snoc c cs)
  let ?f = "\<lambda>r. take ((cs @ [c]) ! r) (drop (sum_list (take r (cs @ [c]))) wk)"
  let ?g = "\<lambda>r. take (cs ! r) (drop (sum_list (take r cs)) wk)"
  have same: "map ?f [0 ..< length cs] = map ?g [0 ..< length cs]"
    by (rule map_cong) (simp_all add: nth_append)
  have last: "?f (length cs) = take c (drop (sum_list cs) wk)"
    by simp
  from snoc.prems have "sum_list cs \<le> length wk" by simp
  from snoc.IH [OF this] have ih: "concat (map ?g [0 ..< length cs]) = take (sum_list cs) wk" .
  have "concat (map ?f [0 ..< length (cs @ [c])]) = concat (map ?f [0 ..< length cs]) @ ?f (length cs)"
    by simp
  also have "\<dots> = take (sum_list cs) wk @ take c (drop (sum_list cs) wk)"
    unfolding same ih last ..
  also have "\<dots> = take (sum_list cs + c) wk"
    by (simp add: take_add)
  finally show ?case by simp
qed

lemma sum_list_map_nat:
  "\<forall>x \<in> set xs. (0::int) \<le> x \<Longrightarrow> int (sum_list (map nat xs)) = sum_list xs"
  by (induction xs) simp_all

lemma concat_mywork:
  assumes "0 < n"
  shows "concat (map (\<lambda>r. mywork wk r n) [0 ..< n]) = wk"
proof -
  let ?rn = "rankn (length wk) n"
  let ?cs = "map nat ?rn"
  have nn: "\<forall>x \<in> set ?rn. 0 \<le> x" using assms by (rule rankn_all_nonneg)
  have total: "sum_list ?cs = length wk"
    using sum_list_map_nat [OF nn] sum_list_rankn [OF assms, of "length wk"] by simp
  have block: "mywork wk r n = take (?cs ! r) (drop (sum_list (take r ?cs)) wk)" if "r < n" for r
  proof -
    have "\<forall>x \<in> set (take r ?rn). 0 \<le> x" using nn by (auto dest: in_set_takeD)
    from sum_list_map_nat [OF this]
    have "nat (sum_list (take r ?rn)) = sum_list (take r ?cs)"
      by (simp add: take_map)
    moreover have "mywork_offset ?rn r = sum_list (take r ?rn)"
      using that by (intro mywork_offset_sum) simp
    ultimately show ?thesis
      using mywork_block [OF assms that, of wk] that by simp
  qed
  have eq: "map (\<lambda>r. mywork wk r n) [0 ..< n] =
      map (\<lambda>r. take (?cs ! r) (drop (sum_list (take r ?cs)) wk)) [0 ..< length ?cs]"
    by (rule map_cong) (simp_all add: block)
  have "sum_list ?cs \<le> length wk" using total by simp
  from concat_blocks [OF this]
  have "concat (map (\<lambda>r. mywork wk r n) [0 ..< n]) = take (sum_list ?cs) wk"
    unfolding eq .
  also have "\<dots> = wk" unfolding total by simp
  finally show ?thesis .
qed

text \<open>
  Claim C7, as amended. With at least one process, the number of work items of rank
  \<open>r\<close> is the number of positions \<open>i\<close> of the work list with \<open>i mod nranks = r\<close>, the
  items of rank \<open>r\<close> are the block of that length that follows the blocks of the lower
  ranks, and the blocks of all ranks in rank order are the work list: every position of
  the work list belongs to exactly one rank.
\<close>

theorem mywork_partition:
  assumes "0 < nranks"
  shows "(\<forall>r < nranks.
            rankn (length wk) nranks ! r = int (card {i. i < length wk \<and> i mod nranks = r}) \<and>
            mywork wk r nranks =
              take (nat (rankn (length wk) nranks ! r))
                (drop (nat (mywork_offset (rankn (length wk) nranks) r)) wk)) \<and>
         concat (map (\<lambda>r. mywork wk r nranks) [0 ..< nranks]) = wk"
  using assms by (simp add: rankn_count mywork_block concat_mywork)

text \<open>
  Claim C7 as stated fails: of three work items on two processes, the item at position 1
  is not given to rank \<open>1 mod 2\<close> but to rank 0, which takes the first two items.
\<close>

theorem mywork_round_robin_counterexample:
  "(1::nat) mod 2 = 1 \<and> [10, 11, 12] ! 1 \<notin> set (mywork [10, 11, 12] 1 2) \<and>
   mywork [10, 11, 12] 0 2 = [10, 11] \<and> mywork [10, 11, 12] 1 2 = [12]"
  by code_simp

subsection \<open>The topological dimension\<close>

lemma dimensions_set_nestingForPatch [simp]:
  "dimensions (VisIt_DomainNesting_set_nestingForPatch h p l c n e) = dimensions h"
  by (simp add: VisIt_DomainNesting_set_nestingForPatch_def)

lemma dimensions_set_levelRefinement [simp]:
  "dimensions (VisIt_DomainNesting_set_levelRefinement h l r) = dimensions h"
  by (simp add: VisIt_DomainNesting_set_levelRefinement_def)

lemma dimensions_foldl:
  "(\<And>h x. dimensions (f h x) = dimensions h) \<Longrightarrow> dimensions (foldl f h xs) = dimensions h"
  by (induction xs arbitrary: h) simp_all

lemma dimensions_set_levelRefinements [simp]:
  "dimensions (set_levelRefinements amr td h) = dimensions h"
  unfolding set_levelRefinements_def by (rule dimensions_foldl) (simp add: Let_def)

lemma dimensions_nestingForLeaves [simp]:
  "dimensions (nestingForLeaves amr allext h) = dimensions h"
  unfolding nestingForLeaves_def Let_def by (rule dimensions_foldl) simp

lemma dimensions_nestingForWork:
  "nestingForWork amr allext w h = Some h' \<Longrightarrow> dimensions h' = dimensions h"
  by (induction amr allext w h rule: nestingForWork.induct)
     (auto simp: Let_def split: if_splits)

lemma nesting_children_gatherv:
  assumes "nesting_children rank nranks amr allext = MPI_Allreduce_MAX buf1 k1"
  shows "k1 worksize =
      MPI_Allgatherv (take (nat (worksize ! rank))
          (childData amr allext (mywork (work amr) rank nranks) @ [0])) worksize
        (nesting_result amr allext (set_levelRefinements amr (topdim allext)
           (VisIt_DomainNesting_set_dimensions VisIt_DomainNesting_alloc
              (int (GetTotalNumberOfBlocks amr)) (int (GetNumberOfLevels amr)) (topdim allext))))"
proof (cases "length allext < 6")
  case True
  with assms show ?thesis by (simp add: nesting_children_def)
next
  case False
  with assms have "(\<lambda>worksize.
      MPI_Allgatherv (take (nat (worksize ! rank))
          (childData amr allext (mywork (work amr) rank nranks) @ [0])) worksize
        (nesting_result amr allext (set_levelRefinements amr (topdim allext)
           (VisIt_DomainNesting_set_dimensions VisIt_DomainNesting_alloc
              (int (GetTotalNumberOfBlocks amr)) (int (GetNumberOfLevels amr)) (topdim allext))))) = k1"
    by (simp add: nesting_children_def Let_def)
  then show ?thesis by (rule subst) (rule refl)
qed

lemma nesting_result_dimensions:
  assumes "nesting_result amr allext h2 workresults = Return (VISIT_HANDLE h)"
  shows "dimensions h = dimensions h2"
proof (cases "nestingForWork amr allext workresults h2")
  case None
  with assms show ?thesis by (simp add: nesting_result_def)
next
  case (Some h3)
  with assms have "h = nestingForLeaves amr allext h3" by (simp add: nesting_result_def)
  with dimensions_nestingForWork [OF Some] show ?thesis by simp
qed

text \<open>
  The topological dimension of the nesting object that a process returns is
  \<open>topdim\<close> of the table it received from the reduction.
\<close>

lemma GetDomainNesting_amr_dimension:
  assumes "GetDomainNesting_amr rank nranks amr = MPI_Allreduce_MAX buf k"
    and "k allext = MPI_Allreduce_MAX buf1 k1"
    and "k1 worksize = MPI_Allgatherv sendbuf recvcounts k2"
    and "k2 workresults = Return (VISIT_HANDLE h)"
  shows "snd (snd (dimensions h)) = topdim allext"
proof -
  let ?h2 = "set_levelRefinements amr (topdim allext)
      (VisIt_DomainNesting_set_dimensions VisIt_DomainNesting_alloc
         (int (GetTotalNumberOfBlocks amr)) (int (GetNumberOfLevels amr)) (topdim allext))"
  from assms(1) have k: "k = nesting_children rank nranks amr"
    by (simp add: GetDomainNesting_amr_def)
  from assms(2) have "nesting_children rank nranks amr allext = MPI_Allreduce_MAX buf1 k1"
    unfolding k .
  from nesting_children_gatherv [OF this, of worksize] assms(3)
  have "k2 = nesting_result amr allext ?h2"
    by (simp only: mpi.inject)
  with assms(4) have "nesting_result amr allext ?h2 workresults = Return (VISIT_HANDLE h)"
    by (simp only:)
  from nesting_result_dimensions [OF this]
  show ?thesis by (simp add: VisIt_DomainNesting_set_dimensions_def)
qed

text \<open>
  Claim C6, as amended. For a reduced table with a first patch, the topological dimension
  is taken from the z-extent of that patch alone: it is 3 when the high end is more than
  1 above the low end, it is 2 when the high end is not above the low end, and it is the
  same for two tables with the same first six entries, whatever the extents of the other
  patches. With such a table the process goes on to the next collective call.
\<close>

theorem topdim_first_patch:
  assumes "6 \<le> length allext"
  shows "(ext_at allext 0 5 - ext_at allext 0 4 > 1 \<longrightarrow> topdim allext = 3) \<and>
         (ext_at allext 0 5 - ext_at allext 0 4 \<le> 0 \<longrightarrow> topdim allext = 2) \<and>
         (take 6 allext' = take 6 allext \<longrightarrow> topdim allext' = topdim allext) \<and>
         nesting_children rank nranks amr allext \<noteq> Return OutOfBounds"
proof (intro conjI impI)
  assume "ext_at allext 0 5 - ext_at allext 0 4 > 1"
  then show "topdim allext = 3" by (simp add: topdim_def ext_at_def)
next
  assume "ext_at allext 0 5 - ext_at allext 0 4 \<le> 0"
  then show "topdim allext = 2" by (simp add: topdim_def ext_at_def)
next
  assume eq: "take 6 allext' = take 6 allext"
  have a5: "take 6 allext' ! 5 = allext' ! 5" and a4: "take 6 allext' ! 4 = allext' ! 4"
    by simp_all
  have b5: "take 6 allext ! 5 = allext ! 5" and b4: "take 6 allext ! 4 = allext ! 4"
    by simp_all
  from a5 b5 eq have e5: "allext' ! 5 = allext ! 5" by metis
  from a4 b4 eq have e4: "allext' ! 4 = allext ! 4" by metis
  show "topdim allext' = topdim allext"
    unfolding topdim_def e5 e4 ..
next
  from assms show "nesting_children rank nranks amr allext \<noteq> Return OutOfBounds"
    by (simp add: nesting_children_def Let_def)
qed

text \<open>
  Claim C6 as stated fails: with a first patch one cell thick in z and a second patch
  eight cells thick, the nesting object gets the topological dimension 2.
\<close>

theorem topdim_any_patch_counterexample:
  "local_box amr_flat_then_deep 1 = Some (0, 7, 0, 7, 0, 7) \<and>
   map_option (map (\<lambda>h. case h of VISIT_HANDLE n \<Rightarrow> Some (dimensions n) | _ \<Rightarrow> None))
     (run_spmd (GetDomainNesting_amr 0 1 amr_flat_then_deep) []) = Some [Some (2, 2, 2)]"
  by code_simp

subsection \<open>The scenario of two processes\<close>

text \<open>
  Claim C2. In the scenario both processes get the same nesting object: patch 0 has the
  children 1 and 2, patches 1 and 2 have none, and the topological dimension is 2.
\<close>

theorem scenario_children:
  "map_option (map snd)
     (GetDomainNesting_all [amr_adaptor amr_rank0, amr_adaptor amr_rank1] True
        scenario_states ''mesh'') =
     Some [VISIT_HANDLE scenario_nesting, VISIT_HANDLE scenario_nesting] \<and>
   children_of (nestingForPatch scenario_nesting) 0 = Some [1, 2] \<and>
   children_of (nestingForPatch scenario_nesting) 1 = Some [] \<and>
   children_of (nestingForPatch scenario_nesting) 2 = Some [] \<and>
   snd (snd (dimensions scenario_nesting)) = 2"
  by code_simp

lemma blocks_rank0: "GetTotalNumberOfBlocks amr_rank0 = 3"
  by (simp add: GetTotalNumberOfBlocks_def amr_rank0_def)

lemma blocks_rank1: "GetTotalNumberOfBlocks amr_rank1 = 3"
  by (simp add: GetTotalNumberOfBlocks_def amr_rank1_def)

lemma boxes_rank0:
  "local_box amr_rank0 0 = Some (0, 3, 0, 3, 0, 0)" "local_box amr_rank0 1 = None"
  by (simp_all add: local_box_def GetLevelAndIndex_def GetAMRBox_def GetCompositeIndex_def
      amr_rank0_def)

lemma boxes_rank1: "local_box amr_rank1 0 = None"
  by (simp add: local_box_def GetLevelAndIndex_def GetAMRBox_def GetCompositeIndex_def
      amr_rank1_def)

theorem allreduce_recovers_extents_witness:
  "max_reduce (map allext_local [amr_rank0, amr_rank1]) ! 1 = 3 \<and>
   max_reduce (map allext_local [amr_rank0]) ! 6 = - 1"
proof -
  let ?box = "(0, 3, 0, 3, 0, 0) :: vtkAMRBox"
  have ne: "[amr_rank0, amr_rank1] \<noteq> []" by simp
  have same: "\<forall>amr \<in> set [amr_rank0, amr_rank1]. GetTotalNumberOfBlocks amr = 3"
    by (simp add: blocks_rank0 blocks_rank1)
  have i: "(0::nat) < 3" and k: "(1::nat) < 6" by simp_all
  have "\<forall>x \<in> set (dims ?box). 0 \<le> x" by simp
  then have pos: "\<forall>k < 6. 0 \<le> dims ?box ! k"
    by (metis length_dims nth_mem)
  have own: "\<exists>amr \<in> set [amr_rank0, amr_rank1]. local_box amr 0 = Some ?box"
    by (simp add: boxes_rank0)
  have agree: "\<forall>amr \<in> set [amr_rank0, amr_rank1].
      local_box amr 0 = None \<or> local_box amr 0 = Some ?box"
    by (simp add: boxes_rank0 boxes_rank1)
  from allreduce_recovers_extents [OF ne same i k, of ?box] own agree pos
  have "max_reduce (map allext_local [amr_rank0, amr_rank1]) ! (6 * 0 + 1) = dims ?box ! 1"
    by blast
  then have first: "max_reduce (map allext_local [amr_rank0, amr_rank1]) ! 1 = 3" by simp
  have ne1: "[amr_rank0] \<noteq> []" by simp
  have same1: "\<forall>amr \<in> set [amr_rank0]. GetTotalNumberOfBlocks amr = 3"
    by (simp add: blocks_rank0)
  have i1: "(1::nat) < 3" and k1: "(0::nat) < 6" by simp_all
  have nobody: "\<forall>amr \<in> set [amr_rank0]. local_box amr 1 = None"
    using boxes_rank0(2) by simp
  from allreduce_recovers_extents [OF ne1 same1 i1 k1, of ?box] nobody
  have "max_reduce (map allext_local [amr_rank0]) ! (6 * 1 + 0) = - 1"
    by blast
  then have second: "max_reduce (map allext_local [amr_rank0]) ! 6 = - 1" by simp
  from first second show ?thesis ..
qed

theorem topdim_first_patch_witness:
  "topdim [0, 3, 0, 3, 0, 0, 0, 7, 0, 7, 0, 7] = 2 \<and>
   topdim [0, 3, 0, 3, 0, 7, 0, 1, 0, 1, 0, 0] = 3 \<and>
   topdim [0, 3, 0, 3, 0, 0] = topdim [0, 3, 0, 3, 0, 0, 0, 7, 0, 7, 0, 7]"
proof -
  have l1: "6 \<le> length [0, 3, 0, 3, 0, 0, 0, 7, 0, 7, 0, 7 :: int]" by simp
  have l2: "6 \<le> length [0, 3, 0, 3, 0, 7, 0, 1, 0, 1, 0, 0 :: int]" by simp
  from topdim_first_patch [OF l1, of "[0, 3, 0, 3, 0, 0]"]
  have "topdim [0, 3, 0, 3, 0, 0, 0, 7, 0, 7, 0, 7] = 2"
    and "topdim [0, 3, 0, 3, 0, 0] = topdim [0, 3, 0, 3, 0, 0, 0, 7, 0, 7, 0, 7]"
    by (simp_all add: ext_at_def)
  moreover from topdim_first_patch [OF l2]
  have "topdim [0, 3, 0, 3, 0, 7, 0, 1, 0, 1, 0, 0] = 3"
    by (simp add: ext_at_def)
  ultimately show ?thesis by simp
qed

theorem mywork_partition_witness:
  "(0::nat) < 2 \<and> concat (map (\<lambda>r. mywork [10, 11, 12] r 2) [0 ..< 2]) = [10, 11, 12]"
proof -
  have h: "(0::nat) < 2" by simp
  from mywork_partition [OF h, of "[10, 11, 12]"]
  have "concat (map (\<lambda>r. mywork [10, 11, 12] r 2) [0 ..< 2]) = [10, 11, 12]"
    by (rule conjunct2)
  with h show ?thesis ..
qed

subsection \<open>Returning without nesting\<close>

text \<open>
  Claim C9, as amended. For a cached mesh, \<^verbatim>\<open>GetDomainNesting\<close> returns the invalid handle
  without entering a collective call and leaves the cache as it is when the ghost cell
  flag is set or the data object is there and is not an overlapping AMR dataset. When the
  flag is not set and the data object was not fetched yet, it fetches the mesh first; if
  that gives no overlapping AMR dataset, it returns the invalid handle without a
  collective call, and the cache is as \<^verbatim>\<open>FetchMesh\<close> left it.
\<close>

theorem GetDomainNesting_skip:
  assumes "meshData This name = Some mi"
  shows "(datasetsHaveGhostCells mi \<or>
          (\<exists>obj. dataObj mi = Some obj \<and> (\<forall>amr. obj \<noteq> OverlappingAMR amr)) \<longrightarrow>
            GetDomainNesting rank nranks da_GetMesh alloc_ok This name =
              Return (This, VISIT_INVALID_HANDLE)) \<and>
         (\<not> datasetsHaveGhostCells mi \<and> dataObj mi = None \<and>
          (\<forall>mi1 amr. meshData (FetchMesh da_GetMesh This name) name = Some mi1 \<longrightarrow>
             dataObj mi1 \<noteq> Some (OverlappingAMR amr)) \<longrightarrow>
            GetDomainNesting rank nranks da_GetMesh alloc_ok This name =
              Return (FetchMesh da_GetMesh This name, VISIT_INVALID_HANDLE))"
proof (intro conjI impI)
  assume "datasetsHaveGhostCells mi \<or>
          (\<exists>obj. dataObj mi = Some obj \<and> (\<forall>amr. obj \<noteq> OverlappingAMR amr))"
  then show "GetDomainNesting rank nranks da_GetMesh alloc_ok This name =
              Return (This, VISIT_INVALID_HANDLE)"
  proof
    assume "datasetsHaveGhostCells mi"
    with assms show ?thesis by (simp add: GetDomainNesting_def)
  next
    assume "\<exists>obj. dataObj mi = Some obj \<and> (\<forall>amr. obj \<noteq> OverlappingAMR amr)"
    then obtain obj where "dataObj mi = Some obj" "\<forall>amr. obj \<noteq> OverlappingAMR amr" by blast
    with assms show ?thesis
      by (cases obj) (simp_all add: GetDomainNesting_def)
  qed
next
  assume h: "\<not> datasetsHaveGhostCells mi \<and> dataObj mi = None \<and>
          (\<forall>mi1 amr. meshData (FetchMesh da_GetMesh This name) name = Some mi1 \<longrightarrow>
             dataObj mi1 \<noteq> Some (OverlappingAMR amr))"
  have "\<exists>mi1. meshData (FetchMesh da_GetMesh This name) name = Some mi1"
    using assms by (auto simp: FetchMesh_def Let_def split: prod.splits)
  then obtain mi1 where mi1: "meshData (FetchMesh da_GetMesh This name) name = Some mi1" ..
  with h have "\<forall>amr. dataObj mi1 \<noteq> Some (OverlappingAMR amr)" by blast
  then have "(case dataObj mi1 of
        Some (OverlappingAMR amr) \<Rightarrow>
          if \<not> alloc_ok then Return (FetchMesh da_GetMesh This name, VISIT_INVALID_HANDLE)
          else map_mpi_state (FetchMesh da_GetMesh This name) (GetDomainNesting_amr rank nranks amr)
      | _ \<Rightarrow> Return (FetchMesh da_GetMesh This name, VISIT_INVALID_HANDLE)) =
      Return (FetchMesh da_GetMesh This name, VISIT_INVALID_HANDLE)"
    by (auto split: option.splits vtkDataObject.splits)
  with assms h mi1 show "GetDomainNesting rank nranks da_GetMesh alloc_ok This name =
              Return (FetchMesh da_GetMesh This name, VISIT_INVALID_HANDLE)"
    by (simp add: GetDomainNesting_def)
qed

lemma unfetched_mesh:
  "meshData unfetched_state ''mesh'' =
     Some \<lparr>dataObj = None, datasets = [None], ndoms_per_rank = [1], doms_this_rank = [0],
           datasetsHaveGhostCells = False\<rparr>"
  by (simp add: unfetched_state_def AddMeshDataCacheEntry_def MeshInfo_new_def)

lemma fetched_mesh:
  "meshData (FetchMesh dataset_adaptor unfetched_state ''mesh'') ''mesh'' =
     Some \<lparr>dataObj = Some (DataSet 5), datasets = [Some 5], ndoms_per_rank = [1],
           doms_this_rank = [0], datasetsHaveGhostCells = False\<rparr>"
  by (simp add: FetchMesh_def unfetched_mesh dataset_adaptor_def SetDataObject_def SetDataSet_def)

text \<open>
  Claim C9 as stated fails: for a mesh that is a plain dataset and was not fetched yet,
  the call returns the invalid handle, but the cache has changed: the entry now holds
  the data object.
\<close>

theorem GetDomainNesting_state_counterexample:
  "dataObj (the (meshData unfetched_state ''mesh'')) = None \<and>
   \<not> datasetsHaveGhostCells (the (meshData unfetched_state ''mesh'')) \<and>
   GetDomainNesting 0 1 dataset_adaptor True unfetched_state ''mesh'' =
     Return (FetchMesh dataset_adaptor unfetched_state ''mesh'', VISIT_INVALID_HANDLE) \<and>
   dataObj (the (meshData (FetchMesh dataset_adaptor unfetched_state ''mesh'') ''mesh'')) =
     Some (DataSet 5) \<and>
   FetchMesh dataset_adaptor unfetched_state ''mesh'' \<noteq> unfetched_state"
proof -
  have neq: "FetchMesh dataset_adaptor unfetched_state ''mesh'' \<noteq> unfetched_state"
  proof
    assume "FetchMesh dataset_adaptor unfetched_state ''mesh'' = unfetched_state"
    then have "meshData (FetchMesh dataset_adaptor unfetched_state ''mesh'') ''mesh'' =
        meshData unfetched_state ''mesh''" by simp
    then show False unfolding fetched_mesh unfetched_mesh by simp
  qed
  have "GetDomainNesting 0 1 dataset_adaptor True unfetched_state ''mesh'' =
     Return (FetchMesh dataset_adaptor unfetched_state ''mesh'', VISIT_INVALID_HANDLE)"
    by (simp add: GetDomainNesting_def unfetched_mesh fetched_mesh)
  with neq show ?thesis by (simp add: unfetched_mesh fetched_mesh)
qed

lemma ghost_mesh:
  "meshData ghost_state ''mesh'' =
     Some \<lparr>dataObj = None, datasets = [None], ndoms_per_rank = [1], doms_this_rank = [0],
           datasetsHaveGhostCells = True\<rparr>"
  by (simp add: ghost_state_def)

theorem GetDomainNesting_skip_witness:
  "GetDomainNesting 0 1 dataset_adaptor True ghost_state ''mesh'' =
     Return (ghost_state, VISIT_INVALID_HANDLE) \<and>
   GetDomainNesting 0 1 dataset_adaptor True
       (FetchMesh dataset_adaptor unfetched_state ''mesh'') ''mesh'' =
     Return (FetchMesh dataset_adaptor unfetched_state ''mesh'', VISIT_INVALID_HANDLE) \<and>
   GetDomainNesting 0 1 dataset_adaptor True unfetched_state ''mesh'' =
     Return (FetchMesh dataset_adaptor unfetched_state ''mesh'', VISIT_INVALID_HANDLE)"
  using GetDomainNesting_skip [OF ghost_mesh, of 0 1 dataset_adaptor True]
    GetDomainNesting_skip [OF fetched_mesh, of 0 1 dataset_adaptor True]
    GetDomainNesting_skip [OF unfetched_mesh, of 0 1 dataset_adaptor True]
  by (simp add: fetched_mesh)

section \<open>Properties of the variable names\<close>

lemma string_find_None: "string_find s c = None \<longleftrightarrow> c \<notin> set s"
  by (induction s) auto

text \<open>
  Claim C8, as amended. With more than one mesh and a name without \<open>/\<close>,
  \<^verbatim>\<open>GetArrayInfoFromVariableName\<close> signals nothing and leaves mesh name, array name and
  association as the caller passed them; \<^verbatim>\<open>GetVariable\<close>, which passes empty names and an
  association without a value, then returns the invalid handle, unless a mesh with the
  empty name is cached.
\<close>

theorem GetArrayInfo_unqualified_name:
  assumes "length meshNames > 1" and "CHR ''/'' \<notin> set varName"
  shows "GetArrayInfoFromVariableName meshNames da_GetArrayNames varName info = Some info \<and>
         (meshData This [] = None \<longrightarrow>
            GetVariable meshNames da_GetArrayNames arrays da_AddArray to_VariableData This
              domain varName = Inr None)"
proof -
  from assms(2) have "string_find varName CHR ''/'' = None"
    by (simp add: string_find_None)
  with assms(1) have same: "GetArrayInfoFromVariableName meshNames da_GetArrayNames varName i = Some i"
    for i
    by (simp add: GetArrayInfoFromVariableName_def GetArrayInfo_names_def)
  have "GetVariable meshNames da_GetArrayNames arrays da_AddArray to_VariableData This
      domain varName = Inr None" if "meshData This [] = None"
  proof -
    from that have "GetLocalDomain This [] domain = - 1"
      by (simp add: GetLocalDomain_def)
    then show ?thesis
      by (simp add: GetVariable_def same GetVariable_info_def)
  qed
  with same show ?thesis by simp
qed

text \<open>
  Claim C8 as stated fails: with two meshes, the name \<open>temperature\<close> gives no failure;
  the mesh name and array name stay empty and the association stays without a value.
\<close>

theorem GetArrayInfo_unqualified_name_counterexample:
  "GetArrayInfoFromVariableName [''mesh'', ''particles''] no_arrays ''temperature''
     GetVariable_info =
     Some \<lparr>info_meshName = [], info_var = [], info_association = None\<rparr>"
  by (simp add: GetArrayInfoFromVariableName_def GetArrayInfo_names_def GetVariable_info_def)

theorem GetArrayInfo_unqualified_name_witness:
  "GetArrayInfoFromVariableName [''mesh'', ''particles''] no_arrays ''temperature''
     \<lparr>info_meshName = ''m'', info_var = ''v'', info_association = Some 1\<rparr> =
     Some \<lparr>info_meshName = ''m'', info_var = ''v'', info_association = Some 1\<rparr> \<and>
   GetVariable [''mesh'', ''particles''] no_arrays
     \<lparr>PointData = \<lambda>ds n. None, CellData = \<lambda>ds n. None\<rparr> (\<lambda>arrays m a n. arrays)
     (\<lambda>arr. Some arr) cache_example 2 ''temperature'' = Inr None"
proof -
  have 1: "length [''mesh'', ''particles''] > 1" by simp
  have 2: "CHR ''/'' \<notin> set ''temperature''" by simp
  have 3: "meshData cache_example [] = None"
    by (simp add: cache_example_def FetchMesh_def AddMeshDataCacheEntry_def MeshInfo_new_def
      SetDataObject_def SetDataSet_def numeral_2_eq_2)
  from GetArrayInfo_unqualified_name [OF 1 2, of no_arrays
      "\<lparr>info_meshName = ''m'', info_var = ''v'', info_association = Some 1\<rparr>"
      cache_example "\<lparr>PointData = \<lambda>ds n. None, CellData = \<lambda>ds n. None\<rparr>"
      "\<lambda>arrays m a n. arrays" "\<lambda>arr. Some arr" 2] 3
  show ?thesis by blast
qed

section \<open>Properties of the conversion of unstructured grids\<close>

lemma store_stored:
  assumes "stored w n st" and "length w < n"
  shows "\<exists>st1. store st v = Some st1 \<and> stored (w @ [v]) n st1"
proof -
  obtain conn lsconn where st: "st = (conn, lsconn)" by (cases st)
  from assms(1) have len: "length conn = n" and pos: "lsconn = length w"
    and pre: "take lsconn conn = map Some w"
    by (auto simp: stored_def st)
  from len pos assms(2) have lt: "lsconn < length conn" by simp
  have "take (Suc lsconn) (conn[lsconn := Some v]) = take lsconn conn @ [Some v]"
    using lt by (simp add: take_Suc_conv_app_nth)
  with st len pos pre lt show ?thesis
    by (simp add: store_def stored_def)
qed

lemma copy_points_stored:
  assumes "stored w n st"
    and "length w + length xs \<le> n"
    and "\<forall>j < length xs. read_at vtkconn (cellConn + idx + int j) = Some (xs ! j)"
  shows "\<exists>st1. copy_points vtkconn cellConn (length xs) idx st = Some st1 \<and>
           stored (w @ xs) n st1"
  using assms
proof (induction xs arbitrary: w st idx)
  case Nil
  then show ?case by simp
next
  case (Cons x xs)
  from Cons.prems(3) have r0: "read_at vtkconn (cellConn + idx) = Some x" by force
  from Cons.prems(2) have "length w < n" by simp
  from store_stored [OF Cons.prems(1) this, of x]
  obtain st1 where st1: "store st x = Some st1" and s1: "stored (w @ [x]) n st1" by blast
  from Cons.prems(2) have l1: "length (w @ [x]) + length xs \<le> n" by simp
  have r1: "\<forall>j < length xs. read_at vtkconn (cellConn + (idx + 1) + int j) = Some (xs ! j)"
  proof (intro allI impI)
    fix j assume "j < length xs"
    then have "Suc j < length (x # xs)" by simp
    with Cons.prems(3) have "read_at vtkconn (cellConn + idx + int (Suc j)) = Some ((x # xs) ! Suc j)"
      by blast
    then show "read_at vtkconn (cellConn + (idx + 1) + int j) = Some (xs ! j)"
      by (simp add: add.assoc)
  qed
  from Cons.IH [OF s1 l1 r1]
  obtain st2 where "copy_points vtkconn cellConn (length xs) (idx + 1) st1 = Some st2"
    and "stored ((w @ [x]) @ xs) n st2" by blast
  with r0 st1 show ?case by simp
qed

lemma convert_cell_stored:
  assumes "stored w n st"
    and "CellTypesArray ugrid ! cellid = t"
    and "unat t < ntypes"
    and "pts \<noteq> []"
    and "read_at (CellLocationsArray ugrid) (int cellid) = Some off"
    and "read_at (Cells ugrid) off = Some (int (length pts))"
    and "\<forall>j < length pts. read_at (Cells ugrid) (off + 1 + int j) = Some (pts ! j)"
    and "length w + 1 + length pts \<le> n"
  shows "\<exists>st1. convert_cell (celltype_vtk_to_libsim vtk visit ntypes) (visit VISIT_CELL_POINT)
                  ugrid cellid st = Some st1 \<and>
           stored (w @ libsim_cell vtk visit ntypes (t, pts)) n st1"
proof (cases "vtk_to_libsim vtk visit ntypes ! unat t = - 1")
  case True
  from assms(8) have "length w < n" by simp
  from store_stored [OF assms(1) this, of "visit VISIT_CELL_POINT"]
  obtain st1 where st1: "store st (visit VISIT_CELL_POINT) = Some st1"
    and s1: "stored (w @ [visit VISIT_CELL_POINT]) n st1" by blast
  from assms(4) have "0 < length pts" by simp
  with assms(7) have r: "read_at (Cells ugrid) (off + 1) = Some (pts ! 0)" by force
  from assms(4,8) have "length (w @ [visit VISIT_CELL_POINT]) < n"
    by (cases pts) simp_all
  from store_stored [OF s1 this, of "pts ! 0"]
  obtain st2 where st2: "store st1 (pts ! 0) = Some st2"
    and s2: "stored ((w @ [visit VISIT_CELL_POINT]) @ [pts ! 0]) n st2" by blast
  from assms(4) have "hd pts = pts ! 0" by (simp add: hd_conv_nth)
  with True assms(2,3,5) st1 r st2 s2 show ?thesis
    by (simp add: convert_cell_def celltype_vtk_to_libsim_def libsim_cell_def)
next
  case False
  let ?lsct = "vtk_to_libsim vtk visit ntypes ! unat t"
  from assms(8) have "length w < n" by simp
  from store_stored [OF assms(1) this, of ?lsct]
  obtain st1 where st1: "store st ?lsct = Some st1"
    and s1: "stored (w @ [?lsct]) n st1" by blast
  from assms(8) have l1: "length (w @ [?lsct]) + length pts \<le> n" by simp
  from assms(7) have r: "\<forall>j < length pts. read_at (Cells ugrid) (off + 1 + 0 + int j) = Some (pts ! j)"
    by simp
  from copy_points_stored [OF s1 l1 r]
  obtain st2 where st2: "copy_points (Cells ugrid) (off + 1) (length pts) 0 st1 = Some st2"
    and s2: "stored ((w @ [?lsct]) @ pts) n st2" by blast
  from False assms(2,3,5,6) st1 st2 s2 show ?thesis
    by (simp add: convert_cell_def celltype_vtk_to_libsim_def libsim_cell_def)
qed

lemma length_libsim_cell:
  "pts \<noteq> [] \<Longrightarrow> length (libsim_cell vtk visit ntypes (t, pts)) \<le> 1 + length pts"
  by (cases pts) (simp_all add: libsim_cell_def)

lemma length_cell_locations [simp]: "length (cell_locations off cells) = length cells"
  by (induction off cells rule: cell_locations.induct) simp_all

lemma cell_locations_nth:
  "cell_locations off (pre @ c # post) ! length pre =
     off + int (length (concat (map vtk_cell_entries pre)))"
proof (induction pre arbitrary: off)
  case Nil
  show ?case by (cases c) simp
next
  case (Cons a pre)
  obtain t pts where a: "a = (t, pts)" by (cases a)
  from Cons [of "off + 1 + int (length pts)"] show ?case
    by (simp add: a vtk_cell_entries_def)
qed

lemma ugrid_cell_facts:
  fixes pre post t pts
  defines "g \<equiv> ugrid_of_cells (pre @ (t, pts) # post)"
    and "off \<equiv> length (concat (map vtk_cell_entries pre))"
  shows "CellTypesArray g ! length pre = t"
    and "read_at (CellLocationsArray g) (int (length pre)) = Some (int off)"
    and "read_at (Cells g) (int off) = Some (int (length pts))"
    and "\<forall>j < length pts. read_at (Cells g) (int off + 1 + int j) = Some (pts ! j)"
    and "off + 1 + length pts \<le> length (Cells g)"
proof -
  have cells: "Cells g = concat (map vtk_cell_entries pre) @ (int (length pts) # pts) @
      concat (map vtk_cell_entries post)"
    by (simp add: g_def ugrid_of_cells_def vtk_cell_entries_def)
  show "CellTypesArray g ! length pre = t"
    by (simp add: g_def ugrid_of_cells_def nth_append)
  show "read_at (CellLocationsArray g) (int (length pre)) = Some (int off)"
    using cell_locations_nth [of 0 pre "(t, pts)" post]
    by (simp add: g_def ugrid_of_cells_def read_at_def off_def)
  show "read_at (Cells g) (int off) = Some (int (length pts))"
    unfolding cells by (simp add: read_at_def off_def nth_append)
  show "\<forall>j < length pts. read_at (Cells g) (int off + 1 + int j) = Some (pts ! j)"
  proof (intro allI impI)
    fix j assume j: "j < length pts"
    have idx: "int off + 1 + int j = int (Suc (off + j))" by simp
    have at: "(concat (map vtk_cell_entries pre) @ (int (length pts) # pts) @
        concat (map vtk_cell_entries post)) ! Suc (off + j) = pts ! j"
      using j unfolding off_def by (simp add: nth_append)
    have lt: "Suc (off + j) < length (Cells g)"
      using j unfolding cells off_def by simp
    show "read_at (Cells g) (int off + 1 + int j) = Some (pts ! j)"
      unfolding idx read_at_def using at lt by (simp add: cells del: of_nat_Suc of_nat_add)
  qed
  show "off + 1 + length pts \<le> length (Cells g)"
    unfolding cells off_def by simp
qed

lemma convert_cells_stored:
  assumes "cells = pre @ rest"
    and "\<forall>(t, pts) \<in> set rest. unat t < ntypes \<and> pts \<noteq> []"
    and "stored w (length (Cells (ugrid_of_cells cells))) st"
    and "length w \<le> length (concat (map vtk_cell_entries pre))"
  shows "\<exists>st1. convert_cells (celltype_vtk_to_libsim vtk visit ntypes) (visit VISIT_CELL_POINT)
                  (ugrid_of_cells cells) (length rest) (length pre) st = Some st1 \<and>
           stored (w @ concat (map (libsim_cell vtk visit ntypes) rest))
             (length (Cells (ugrid_of_cells cells))) st1"
  using assms
proof (induction rest arbitrary: pre w st)
  case Nil
  then show ?case by simp
next
  case (Cons c rest)
  obtain t pts where c: "c = (t, pts)" by (cases c)
  let ?g = "ugrid_of_cells cells"
  let ?off = "length (concat (map vtk_cell_entries pre))"
  from Cons.prems(1) c have cells: "cells = pre @ (t, pts) # rest" by simp
  from Cons.prems(2) c have t: "unat t < ntypes" and pts: "pts \<noteq> []" by simp_all
  note facts = ugrid_cell_facts [where pre = pre and t = t and pts = pts and post = rest, folded cells]
  from Cons.prems(4) facts(5) have fit: "length w + 1 + length pts \<le> length (Cells ?g)"
    by simp
  from facts(4) have pts_read:
    "\<forall>j < length pts. read_at (Cells ?g) (int ?off + 1 + int j) = Some (pts ! j)" .
  from convert_cell_stored [OF Cons.prems(3) facts(1) t pts facts(2) facts(3) pts_read fit,
      of vtk visit]
  obtain st1 where step: "convert_cell (celltype_vtk_to_libsim vtk visit ntypes)
        (visit VISIT_CELL_POINT) ?g (length pre) st = Some st1"
    and s1: "stored (w @ libsim_cell vtk visit ntypes (t, pts)) (length (Cells ?g)) st1"
    by blast
  from cells have cells1: "cells = (pre @ [c]) @ rest" by (simp add: c)
  from Cons.prems(2) have rest: "\<forall>(t, pts) \<in> set rest. unat t < ntypes \<and> pts \<noteq> []" by simp
  have "length (concat (map vtk_cell_entries (pre @ [c]))) = ?off + (1 + length pts)"
    by (simp add: c vtk_cell_entries_def [of "(t, pts)"])
  with length_libsim_cell [OF pts, of vtk visit ntypes t] Cons.prems(4)
  have le: "length (w @ libsim_cell vtk visit ntypes (t, pts)) \<le>
      length (concat (map vtk_cell_entries (pre @ [c])))"
    by simp
  from Cons.IH [OF cells1 rest s1 le]
  obtain st2 where "convert_cells (celltype_vtk_to_libsim vtk visit ntypes)
        (visit VISIT_CELL_POINT) ?g (length rest) (length (pre @ [c])) st1 = Some st2"
    and "stored ((w @ libsim_cell vtk visit ntypes (t, pts)) @
        concat (map (libsim_cell vtk visit ntypes) rest)) (length (Cells ?g)) st2"
    by blast
  with step show ?case by (simp add: c)
qed

lemma length_Cells:
  "length (Cells (ugrid_of_cells cells)) = (\<Sum>(t, pts) \<leftarrow> cells. 1 + length pts)"
  by (induction cells) (auto simp: ugrid_of_cells_def vtk_cell_entries_def)

text \<open>
  For a grid in VTK's layout whose cells all have a type below
  \<^verbatim>\<open>VTK_NUMBER_OF_CELL_TYPES\<close> and at least one point, the conversion succeeds: the array
  has one entry more than points for each cell, and the entries written are those of
  \<open>libsim_cell\<close> for the cells in order.
\<close>

lemma ugrid_connectivity_cells:
  assumes "\<forall>(t, pts) \<in> set cells. unat t < ntypes \<and> pts \<noteq> []"
  shows "\<exists>conn lsconn.
           ugrid_connectivity vtk visit ntypes (ugrid_of_cells cells) = Some (conn, lsconn) \<and>
           length conn = (\<Sum>(t, pts) \<leftarrow> cells. 1 + length pts) \<and>
           lsconn = length (concat (map (libsim_cell vtk visit ntypes) cells)) \<and>
           take lsconn conn = map Some (concat (map (libsim_cell vtk visit ntypes) cells))"
proof -
  let ?g = "ugrid_of_cells cells"
  have init: "stored [] (length (Cells ?g)) (replicate (length (Cells ?g)) None, 0)"
    by (simp add: stored_def)
  have "cells = [] @ cells" by simp
  from convert_cells_stored [OF this assms init, of vtk visit]
  obtain st1 where run: "convert_cells (celltype_vtk_to_libsim vtk visit ntypes)
        (visit VISIT_CELL_POINT) ?g (length cells) 0
        (replicate (length (Cells ?g)) None, 0) = Some st1"
    and s1: "stored (concat (map (libsim_cell vtk visit ntypes) cells)) (length (Cells ?g)) st1"
    by auto
  obtain conn lsconn where st1: "st1 = (conn, lsconn)" by (cases st1)
  have ncells: "length (CellTypesArray ?g) = length cells"
    by (simp add: ugrid_of_cells_def)
  from run have "ugrid_connectivity vtk visit ntypes ?g = Some (conn, lsconn)"
    unfolding ugrid_connectivity_def Let_def ncells st1 .
  moreover from s1 have "length conn = length (Cells ?g)"
    and "lsconn = length (concat (map (libsim_cell vtk visit ntypes) cells))"
    and "take lsconn conn = map Some (concat (map (libsim_cell vtk visit ntypes) cells))"
    by (auto simp: stored_def st1)
  ultimately show ?thesis
    unfolding length_Cells by blast
qed

text \<open>
  Claim C5 fails on the code for a cell without points whose type the table does not
  have: a grid of one \<^verbatim>\<open>VTK_EMPTY_CELL\<close> has a connectivity of one entry, the table gives
  \<open>- 1\<close> for the type, and the conversion reads and stores past the end of the arrays.
\<close>

theorem empty_cell_out_of_bounds:
  "ugrid_of_cells [(0, [])] = \<lparr>CellTypesArray = [0], Cells = [0], CellLocationsArray = [0]\<rparr> \<and>
   celltype_vtk_to_libsim vtk_8_1 visit_v2 76 0 = Some (- 1) \<and>
   ugrid_connectivity vtk_8_1 visit_v2 76 (ugrid_of_cells [(0, [])]) = None"
  by code_simp

end
